theory Spec2Isabelle
  imports Complex_Main
begin

section \<open>ChromaticBlur: data model\<close>

text \<open>
  The embedding follows \<^verbatim>\<open>dist/chromatic-blur.js\<close>. The class mutates three kinds of
  shared state: the document (the SVG container holding the filter definitions, and the
  children and inline styles of the page's elements), the static set
  \<^verbatim>\<open>ChromaticBlur.instances\<close>, and the fields of each instance. All three are fields of one
  \<open>world\<close> record that every method takes and returns.

  Conventions.
  \<^item> JavaScript numbers are rationals: the class never computes with an option value, it
    only stores it and interpolates it into the filter markup. A field of a configuration
    holds a value of its JSDoc type or \<^verbatim>\<open>undefined\<close>.
  \<^item> An inline style declaration is a record of the seven properties the class reads or
    writes; the empty string is the unset property. What a declaration stores when a text
    is assigned to a property is the engine's business: the world's \<open>css\<close> gives, for a
    property and a text, the serialised value stored, or nothing when the text does not
    parse and the assignment is ignored. The class's keyword constants
    (\<^verbatim>\<open>relative\<close>, \<^verbatim>\<open>hidden\<close>, \<^verbatim>\<open>1\<close>) are stored as written, and so is a value that
    was read from the declaration and is written back.
  \<^item> The computed position of an element is what the engine's cascade makes of its inline
    position at the moment the class asks for it: a function that the element carries, not
    a formula. The nodes that the class puts into the document are taken not to change
    that function.
  \<^item> A node made by the class has a number, its identity, drawn from \<open>next_node\<close>. The
    throw-away \<^verbatim>\<open>div\<close> of the feature probe gets none, and the \<^verbatim>\<open>cssText\<close> of the
    made nodes is kept only as far as the class reads it back (position and z-index).
  \<^item> Targets are elements of the page. A page may lack a body, and it may hold an element
    with the id \<^verbatim>\<open>chromatic-blur-filters\<close> that has no \<^verbatim>\<open>defs\<close> inside.
  \<^item> \<^verbatim>\<open>console.log\<close> and the module exports have no counterpart; \<^verbatim>\<open>destroyAll\<close>
    occurs in no statement below and is left out.
\<close>

text \<open>A field of the effective configuration: \<open>None\<close> is the value \<^verbatim>\<open>undefined\<close>.\<close>

record options =
  redOffset :: "rat option"
  blueOffset :: "rat option"
  blurAmount :: "rat option"
  turbulenceFrequency :: "rat option"
  displacementScale :: "rat option"
  borderColor :: "string option"
  addOverlay :: "bool option"
  addNoise :: "bool option"

text \<open>
  A key of a partial configuration: the object does not have it, or has it with the value
  \<^verbatim>\<open>undefined\<close>, or has it with a value of the field's type.
\<close>

datatype 'a field = Absent | Undefined | Value 'a

record partial_options =
  p_redOffset :: "rat field"
  p_blueOffset :: "rat field"
  p_blurAmount :: "rat field"
  p_turbulenceFrequency :: "rat field"
  p_displacementScale :: "rat field"
  p_borderColor :: "string field"
  p_addOverlay :: "bool field"
  p_addNoise :: "bool field"

record style =
  backdropFilter :: string
  WebkitBackdropFilter :: string
  position :: string
  overflow :: string
  boxShadow :: string
  backgroundColor :: string
  zIndex :: string

text \<open>
  A \<^verbatim>\<open>div\<close> made by the class (the overlay container or the fallback background):
  its identity, its class name, the two style properties of its \<^verbatim>\<open>cssText\<close> that the
  class reads back later, and the class names of its own children.
\<close>

record made_div =
  node :: nat
  className :: string
  div_position :: string
  div_zIndex :: string
  kids :: "string list"

datatype child = PageChild nat | MadeChild made_div

text \<open>
  An element of the page: its inline style, its element children in document order, and
  \<open>cascade\<close>, which gives the computed position of the element for each inline position it
  may have (the outcome of the page's style sheets, \<^verbatim>\<open>!important\<close> rules included).
\<close>

record element =
  style :: style
  cascade :: "string \<Rightarrow> string"
  children :: "child list"

datatype attr_val = S string | N rat | M "int list list"

type_synonym stage = "string \<times> (string \<times> attr_val) list"

record filter_node =
  fnode :: nat
  fid :: string
  fattrs :: "(string \<times> attr_val) list"
  fstages :: "stage list"

record original_styles =
  orig_backdropFilter :: string
  orig_WebkitBackdropFilter :: string
  orig_position :: string
  orig_overflow :: string

record chromatic_blur =
  element :: nat
  options :: options
  ident :: string
  originalStyles :: original_styles
  svgContainer :: nat
  defs :: nat
  filterRef :: "nat option"
  overlayContainer :: "nat option"
  firefoxBg :: "nat option"

datatype query = Matches nat | NoMatch | Malformed

datatype target = Selector string | ElementRef "nat option"

datatype error = InvalidElement | SyntaxError | TypeError

text \<open>
  \<open>body_svgs\<close> lists the nodes of the document that carry the id
  \<^verbatim>\<open>chromatic-blur-filters\<close>, in document order; \<open>svg_defs\<close> gives the filter
  definitions under the \<^verbatim>\<open>defs\<close> of each such node, attached or not. \<open>objs\<close> is the heap
  of ChromaticBlur objects and \<open>instances\<close> the static set. \<open>isFirefox\<close> is the result of
  the user-agent test and \<open>backdropFilterSupported\<close> that of the feature probe.
  \<open>has_body\<close> says that \<^verbatim>\<open>document.body\<close> is not null, \<open>has_defs\<close> that a node has a
  \<^verbatim>\<open>defs\<close> inside. \<open>css\<close> is the engine's reading of an assigned text, and
  \<open>div_cascade\<close> the computed position of a made div, from its class name and its inline
  position.
\<close>

record world =
  elems :: "nat \<Rightarrow> element"
  querySelector :: "string \<Rightarrow> query"
  isFirefox :: bool
  backdropFilterSupported :: bool
  body_svgs :: "nat list"
  svg_defs :: "nat \<Rightarrow> filter_node list"
  next_node :: nat
  objs :: "nat \<Rightarrow> chromatic_blur option"
  next_obj :: nat
  instances :: "nat set"
  has_body :: bool
  has_defs :: "nat \<Rightarrow> bool"
  css :: "string \<Rightarrow> string \<Rightarrow> string option"
  div_cascade :: "string \<Rightarrow> string \<Rightarrow> string"

section \<open>The class\<close>

definition defaults :: options where
  "defaults = \<lparr>redOffset = Some 5, blueOffset = Some (- 5), blurAmount = Some 3,
     turbulenceFrequency = Some (1 / 1000), displacementScale = Some 50,
     borderColor = Some ''rgba(156, 156, 156, 0.2)'', addOverlay = Some True,
     addNoise = Some True\<rparr>"

text \<open>
  The object spread \<^verbatim>\<open>{ ...a, ...b }\<close>, one key at a time: a key that \<open>b\<close> has wins, also
  when its value is \<^verbatim>\<open>undefined\<close>.
\<close>

definition pick :: "'a option \<Rightarrow> 'a field \<Rightarrow> 'a option" where
  "pick a b = (case b of Absent \<Rightarrow> a | Undefined \<Rightarrow> None | Value v \<Rightarrow> Some v)"

definition spread :: "options \<Rightarrow> partial_options \<Rightarrow> options" where
  "spread a b =
     \<lparr>redOffset = pick (redOffset a) (p_redOffset b),
      blueOffset = pick (blueOffset a) (p_blueOffset b),
      blurAmount = pick (blurAmount a) (p_blurAmount b),
      turbulenceFrequency = pick (turbulenceFrequency a) (p_turbulenceFrequency b),
      displacementScale = pick (displacementScale a) (p_displacementScale b),
      borderColor = pick (borderColor a) (p_borderColor b),
      addOverlay = pick (addOverlay a) (p_addOverlay b),
      addNoise = pick (addNoise a) (p_addNoise b)\<rparr>"

text \<open>
  What JavaScript makes of a field: in a condition, in a template literal inside the
  filter markup, and in a template literal inside a style text.
\<close>

definition truthy :: "bool option \<Rightarrow> bool" where
  "truthy b = (b = Some True)"

definition interp :: "rat option \<Rightarrow> attr_val" where
  "interp v = (case v of None \<Rightarrow> S ''undefined'' | Some r \<Rightarrow> N r)"

definition text_of :: "string option \<Rightarrow> string" where
  "text_of v = (case v of None \<Rightarrow> ''undefined'' | Some c \<Rightarrow> c)"

text \<open>
  An assignment \<^verbatim>\<open>style.prop = v\<close> of a text the class has built: the declaration
  stores the engine's serialisation of \<open>v\<close>, or keeps what it had when \<open>v\<close> does not parse.
\<close>

definition assign :: "world \<Rightarrow> string \<Rightarrow> string \<Rightarrow> string \<Rightarrow> string" where
  "assign w prop v old = (case css w prop v of None \<Rightarrow> old | Some s \<Rightarrow> s)"

text \<open>
  \<^verbatim>\<open>typeof element === 'string' ? document.querySelector(element) : element\<close>. A
  malformed selector makes \<^verbatim>\<open>querySelector\<close> itself raise.
\<close>

definition resolve :: "world \<Rightarrow> target \<Rightarrow> error + nat option" where
  "resolve w t =
     (case t of
        Selector s \<Rightarrow>
          (case querySelector w s of
             Matches e \<Rightarrow> Inr (Some e)
           | NoMatch \<Rightarrow> Inr None
           | Malformed \<Rightarrow> Inl SyntaxError)
      | ElementRef r \<Rightarrow> Inr r)"

text \<open>\<^verbatim>\<open>document.getElementById('chromatic-blur-filters')\<close>.\<close>

definition getElementById :: "world \<Rightarrow> nat option" where
  "getElementById w = (case body_svgs w of [] \<Rightarrow> None | c # _ \<Rightarrow> Some c)"

text \<open>
  \<^verbatim>\<open>_ensureSVGContainer\<close> returns the container it found or made. When it has to make
  one and \<^verbatim>\<open>document.body\<close> is null, \<^verbatim>\<open>document.body.insertBefore\<close> raises a
  TypeError; the container made is then in no document.
\<close>

definition ensureSVGContainer :: "world \<Rightarrow> error + world \<times> nat" where
  "ensureSVGContainer w =
     (case getElementById w of
        Some c \<Rightarrow> Inr (w, c)
      | None \<Rightarrow>
          if has_body w then
            (let c = next_node w
             in Inr (w\<lparr>next_node := Suc c,
                      svg_defs := (svg_defs w)(c := []),
                      has_defs := (has_defs w)(c := True),
                      body_svgs := c # body_svgs w\<rparr>, c))
          else Inl TypeError)"

text \<open>
  \<^verbatim>\<open>container.querySelector('defs')\<close>: a container has at most one \<^verbatim>\<open>defs\<close>, which the
  model identifies with it.
\<close>

definition defs_of :: "world \<Rightarrow> nat \<Rightarrow> nat option" where
  "defs_of w c = (if has_defs w c then Some c else None)"

text \<open>
  The markup assigned to \<^verbatim>\<open>filter.innerHTML\<close>, as the list of the elements it parses
  to (the comments are left out). An interpolated option stays a number, and
  \<^verbatim>\<open>undefined\<close> becomes the text \<^verbatim>\<open>undefined\<close>.
\<close>

definition filter_markup :: "options \<Rightarrow> stage list" where
  "filter_markup opts =
     [(''feTurbulence'',
         [(''baseFrequency'', interp (turbulenceFrequency opts)), (''numOctaves'', S ''1''),
          (''type'', S ''turbulence''), (''result'', S ''turbulence'')]),
      (''feOffset'',
         [(''in'', S ''SourceGraphic''), (''dx'', interp (redOffset opts)), (''dy'', S ''0''),
          (''result'', S ''redOffset'')]),
      (''feColorMatrix'',
         [(''in'', S ''redOffset''), (''type'', S ''matrix''),
          (''values'', M [[1, 0, 0, 0, 0], [0, 0, 0, 0, 0], [0, 0, 0, 0, 0], [0, 0, 0, 1, 0]]),
          (''result'', S ''red'')]),
      (''feColorMatrix'',
         [(''in'', S ''SourceGraphic''), (''type'', S ''matrix''),
          (''values'', M [[0, 0, 0, 0, 0], [0, 1, 0, 0, 0], [0, 0, 0, 0, 0], [0, 0, 0, 1, 0]]),
          (''result'', S ''green'')]),
      (''feOffset'',
         [(''in'', S ''SourceGraphic''), (''dx'', interp (blueOffset opts)), (''dy'', S ''0''),
          (''result'', S ''blueOffset'')]),
      (''feColorMatrix'',
         [(''in'', S ''blueOffset''), (''type'', S ''matrix''),
          (''values'', M [[0, 0, 0, 0, 0], [0, 0, 0, 0, 0], [0, 0, 1, 0, 0], [0, 0, 0, 1, 0]]),
          (''result'', S ''blue'')]),
      (''feComposite'',
         [(''in'', S ''red''), (''in2'', S ''green''), (''operator'', S ''arithmetic''),
          (''k2'', S ''1''), (''k3'', S ''1''), (''result'', S ''redGreen'')]),
      (''feComposite'',
         [(''in'', S ''redGreen''), (''in2'', S ''blue''), (''operator'', S ''arithmetic''),
          (''k2'', S ''1''), (''k3'', S ''1''), (''result'', S ''colorSplit'')]),
      (''feDisplacementMap'',
         [(''in'', S ''colorSplit''), (''in2'', S ''turbulence''),
          (''scale'', interp (displacementScale opts)), (''result'', S ''displacement'')]),
      (''feGaussianBlur'',
         [(''in'', S ''displacement''), (''stdDeviation'', interp (blurAmount opts)),
          (''result'', S ''blurred'')])]"

definition createFilter :: "world \<Rightarrow> chromatic_blur \<Rightarrow> world \<times> chromatic_blur" where
  "createFilter w this =
     (let n = next_node w;
          f = \<lparr>fnode = n, fid = ident this,
               fattrs = [(''x'', S ''-50%''), (''y'', S ''-50%''),
                         (''width'', S ''200%''), (''height'', S ''200%'')],
               fstages = filter_markup (options this)\<rparr>
      in (w\<lparr>next_node := Suc n,
            svg_defs := (svg_defs w)(defs this := svg_defs w (defs this) @ [f])\<rparr>,
          this\<lparr>filterRef := Some n\<rparr>))"

text \<open>\<^verbatim>\<open>window.getComputedStyle(el).position\<close>, for a page element and for a made div.\<close>

definition computed_position :: "element \<Rightarrow> string" where
  "computed_position el = cascade el (position (style el))"

definition div_computed_position :: "world \<Rightarrow> made_div \<Rightarrow> string" where
  "div_computed_position w d = div_cascade w (className d) (div_position d)"

text \<open>The body of the \<^verbatim>\<open>children.forEach\<close> callback, on a page element and on a made div.\<close>

definition promote_style :: "element \<Rightarrow> element" where
  "promote_style el =
     (let s1 = (if computed_position el = ''static''
                then (style el)\<lparr>position := ''relative''\<rparr> else style el);
          s2 = (if zIndex s1 = [] \<or> zIndex s1 = ''auto'' then s1\<lparr>zIndex := ''1''\<rparr> else s1)
      in el\<lparr>style := s2\<rparr>)"

definition promote_div :: "world \<Rightarrow> made_div \<Rightarrow> made_div" where
  "promote_div w d =
     (let d1 = (if div_computed_position w d = ''static''
                then d\<lparr>div_position := ''relative''\<rparr> else d)
      in if div_zIndex d1 = [] \<or> div_zIndex d1 = ''auto'' then d1\<lparr>div_zIndex := ''1''\<rparr> else d1)"

definition promote_in :: "world \<Rightarrow> nat \<Rightarrow> child \<Rightarrow> child" where
  "promote_in w n c =
     (case c of
        PageChild k \<Rightarrow> c
      | MadeChild d \<Rightarrow> if node d = n then MadeChild (promote_div w d) else c)"

definition promote_child :: "nat \<Rightarrow> world \<Rightarrow> child \<Rightarrow> world" where
  "promote_child e w c =
     (case c of
        PageChild k \<Rightarrow> w\<lparr>elems := (elems w)(k := promote_style (elems w k))\<rparr>
      | MadeChild d \<Rightarrow>
          w\<lparr>elems := (elems w)(e := (elems w e)
               \<lparr>children := map (promote_in w (node d)) (children (elems w e))\<rparr>)\<rparr>)"

definition fallback_shadow :: "string \<Rightarrow> string" where
  "fallback_shadow c =
     [CHR 0x0A] @ ''        0 0 0 1px '' @ c @ '' inset,'' @
     [CHR 0x0A] @ ''        0 4px 12px rgba(0, 0, 0, 0.15)'' @
     [CHR 0x0A] @ ''      ''"

definition addFirefoxFallback :: "world \<Rightarrow> chromatic_blur \<Rightarrow> world \<times> chromatic_blur" where
  "addFirefoxFallback w this =
     (if isFirefox w \<or> \<not> backdropFilterSupported w then
        (let e = element this;
             el = elems w e;
             st = (style el)
                    \<lparr>backgroundColor :=
                       assign w ''backgroundColor'' ''rgba(255, 255, 255, 0.85)''
                         (backgroundColor (style el)),
                     boxShadow :=
                       assign w ''boxShadow'' (fallback_shadow (text_of (borderColor (options this))))
                         (boxShadow (style el))\<rparr>;
             n = next_node w;
             bg = \<lparr>node = n, className = ''chromatic-blur-firefox-bg'',
                   div_position = ''absolute'', div_zIndex = ''0'', kids = []\<rparr>;
             cs = children el;
             w1 = w\<lparr>next_node := Suc n,
                    elems := (elems w)(e := el\<lparr>style := st, children := MadeChild bg # cs\<rparr>)\<rparr>
         in (foldl (promote_child e) w1 cs, this\<lparr>firefoxBg := Some n\<rparr>))
      else (w, this))"

definition inset_shadow :: "string \<Rightarrow> string" where
  "inset_shadow c = ''0 0 0 1px '' @ c @ '' inset''"

definition filterUrl :: "chromatic_blur \<Rightarrow> string" where
  "filterUrl this = ''url(#'' @ ident this @ '')''"

definition applyStyles :: "world \<Rightarrow> chromatic_blur \<Rightarrow> world \<times> chromatic_blur" where
  "applyStyles w this =
     (let e = element this;
          el = elems w e;
          needsPosition = (computed_position el = ''static'');
          s1 = (style el)
                 \<lparr>backdropFilter :=
                    assign w ''backdropFilter'' (filterUrl this) (backdropFilter (style el)),
                  WebkitBackdropFilter :=
                    assign w ''WebkitBackdropFilter'' (filterUrl this)
                      (WebkitBackdropFilter (style el)),
                  overflow := ''hidden'',
                  boxShadow :=
                    assign w ''boxShadow'' (inset_shadow (text_of (borderColor (options this))))
                      (boxShadow (style el))\<rparr>;
          s2 = (if needsPosition then s1\<lparr>position := ''relative''\<rparr> else s1)
      in addFirefoxFallback (w\<lparr>elems := (elems w)(e := el\<lparr>style := s2\<rparr>)\<rparr>) this)"

definition addOverlays :: "world \<Rightarrow> chromatic_blur \<Rightarrow> world \<times> chromatic_blur" where
  "addOverlays w this =
     (let n = next_node w;
          e = element this;
          el = elems w e;
          oc = \<lparr>node = n, className = ''chromatic-blur-overlays'',
                div_position = ''absolute'', div_zIndex = [],
                kids = (if truthy (addNoise (options this)) then [''chromatic-blur-noise''] else []) @
                       (if truthy (addOverlay (options this)) then [''chromatic-blur-gradient'']
                        else [])\<rparr>
      in (w\<lparr>next_node := Suc n,
            elems := (elems w)(e := el\<lparr>children := MadeChild oc # children el\<rparr>)\<rparr>,
          this\<lparr>overlayContainer := Some n\<rparr>))"

text \<open>
  \<^verbatim>\<open>_init\<close>. The container found may be an element of the page that has no \<^verbatim>\<open>defs\<close>:
  \<^verbatim>\<open>this.defs\<close> is then null and \<^verbatim>\<open>this.defs.appendChild\<close> in \<^verbatim>\<open>_createFilter\<close>
  raises a TypeError, before anything in the document has changed. An object that exists
  after \<^verbatim>\<open>_init\<close> therefore has a \<^verbatim>\<open>defs\<close>, and the field is not optional.
\<close>

definition init :: "world \<Rightarrow> nat \<Rightarrow> options \<Rightarrow> string \<Rightarrow> original_styles \<Rightarrow> error + world \<times> chromatic_blur" where
  "init w e opts i orig =
     (case ensureSVGContainer w of
        Inl err \<Rightarrow> Inl err
      | Inr (w1, c) \<Rightarrow>
          (case defs_of w1 c of
             None \<Rightarrow> Inl TypeError
           | Some d \<Rightarrow>
               (let this = \<lparr>element = e, options = opts, ident = i, originalStyles = orig,
                       svgContainer = c, defs = d, filterRef = None,
                       overlayContainer = None, firefoxBg = None\<rparr>;
                    (w2, this2) = createFilter w1 this;
                    (w3, this3) = applyStyles w2 this2
                in Inr (if truthy (addOverlay (options this3)) \<or> truthy (addNoise (options this3))
                        then addOverlays w3 this3 else (w3, this3)))))"

text \<open>
  The constructor. Its last argument is the string that
  \<^verbatim>\<open>Date.now()\<close> and \<^verbatim>\<open>Math.random()\<close> produce for \<^verbatim>\<open>this.id\<close>. The result is the
  error thrown or the new object, and the world afterwards. When \<^verbatim>\<open>_init\<close> raises, the
  document, the heap and the tracked set are as before.
\<close>

definition constructor :: "world \<Rightarrow> target \<Rightarrow> partial_options \<Rightarrow> string \<Rightarrow> (error + nat) \<times> world" where
  "constructor w t opts i =
     (case resolve w t of
        Inl err \<Rightarrow> (Inl err, w)
      | Inr None \<Rightarrow> (Inl InvalidElement, w)
      | Inr (Some e) \<Rightarrow>
          (let st = style (elems w e);
               orig = \<lparr>orig_backdropFilter = backdropFilter st,
                       orig_WebkitBackdropFilter = WebkitBackdropFilter st,
                       orig_position = position st,
                       orig_overflow = overflow st\<rparr>
           in case init w e (spread defaults opts) i orig of
                Inl err \<Rightarrow> (Inl err, w)
              | Inr (w1, this) \<Rightarrow>
                  (let h = next_obj w1
                   in (Inr h, w1\<lparr>objs := (objs w1)(h := Some this),
                                 next_obj := Suc h,
                                 instances := insert h (instances w1)\<rparr>))))"

text \<open>\<^verbatim>\<open>node.remove()\<close> on a filter definition, and on a made div.\<close>

definition remove_filter :: "world \<Rightarrow> nat \<Rightarrow> world" where
  "remove_filter w n = w\<lparr>svg_defs := (\<lambda>c. filter (\<lambda>f. fnode f \<noteq> n) (svg_defs w c))\<rparr>"

definition is_div :: "nat \<Rightarrow> child \<Rightarrow> bool" where
  "is_div n c = (case c of PageChild k \<Rightarrow> False | MadeChild d \<Rightarrow> node d = n)"

definition remove_div :: "world \<Rightarrow> nat \<Rightarrow> world" where
  "remove_div w n =
     w\<lparr>elems := (\<lambda>k. (elems w k)\<lparr>children := filter (\<lambda>c. \<not> is_div n c) (children (elems w k))\<rparr>)\<rparr>"

text \<open>
  A method is called on an object; \<open>h\<close> names it in the heap. On a number that names no
  object there is nothing to call, and the world stays as it is.
\<close>

definition update :: "world \<Rightarrow> nat \<Rightarrow> partial_options \<Rightarrow> world" where
  "update w h newOptions =
     (case objs w h of
        None \<Rightarrow> w
      | Some this \<Rightarrow>
          (let this1 = this\<lparr>options := spread (options this) newOptions\<rparr>;
               w1 = (case filterRef this1 of Some f \<Rightarrow> remove_filter w f | None \<Rightarrow> w);
               (w2, this2) = createFilter w1 this1;
               (w3, this3) = applyStyles w2 this2
           in w3\<lparr>objs := (objs w3)(h := Some this3)\<rparr>))"

definition restore :: "original_styles \<Rightarrow> style \<Rightarrow> style" where
  "restore orig s =
     s\<lparr>backdropFilter := orig_backdropFilter orig,
       WebkitBackdropFilter := orig_WebkitBackdropFilter orig,
       position := orig_position orig,
       overflow := orig_overflow orig\<rparr>"

definition destroy :: "world \<Rightarrow> nat \<Rightarrow> world" where
  "destroy w h =
     (case objs w h of
        None \<Rightarrow> w
      | Some this \<Rightarrow>
          (let w1 = (case filterRef this of Some f \<Rightarrow> remove_filter w f | None \<Rightarrow> w);
               w2 = (case overlayContainer this of Some n \<Rightarrow> remove_div w1 n | None \<Rightarrow> w1);
               w3 = (case firefoxBg this of Some n \<Rightarrow> remove_div w2 n | None \<Rightarrow> w2);
               e = element this;
               el = elems w3 e;
               w4 = w3\<lparr>elems := (elems w3)(e := el\<lparr>style := restore (originalStyles this) (style el)\<rparr>)\<rparr>;
               w5 = w4\<lparr>instances := instances w4 - {h}\<rparr>
           in if instances w5 = {}
              then (case getElementById w5 of
                      Some c \<Rightarrow> w5\<lparr>body_svgs := removeAll c (body_svgs w5)\<rparr>
                    | None \<Rightarrow> w5)
              else w5))"

definition set_backdrop :: "world \<Rightarrow> nat \<Rightarrow> string \<Rightarrow> world" where
  "set_backdrop w e v =
     w\<lparr>elems := (elems w)(e := (elems w e)
          \<lparr>style := (style (elems w e))
             \<lparr>backdropFilter :=
                assign w ''backdropFilter'' v (backdropFilter (style (elems w e))),
              WebkitBackdropFilter :=
                assign w ''WebkitBackdropFilter'' v
                  (WebkitBackdropFilter (style (elems w e)))\<rparr>\<rparr>)\<rparr>"

definition enable :: "world \<Rightarrow> nat \<Rightarrow> world" where
  "enable w h =
     (case objs w h of
        None \<Rightarrow> w
      | Some this \<Rightarrow> set_backdrop w (element this) (filterUrl this))"

definition disable :: "world \<Rightarrow> nat \<Rightarrow> world" where
  "disable w h =
     (case objs w h of
        None \<Rightarrow> w
      | Some this \<Rightarrow> set_backdrop w (element this) ''none'')"

section \<open>Runs of the public operations\<close>

datatype op =
    Construct target partial_options string
  | Update nat partial_options
  | Enable nat
  | Disable nat
  | Destroy nat

fun step :: "world \<Rightarrow> op \<Rightarrow> world" where
  "step w (Construct t opts i) = snd (constructor w t opts i)"
| "step w (Update h opts) = update w h opts"
| "step w (Enable h) = enable w h"
| "step w (Disable h) = disable w h"
| "step w (Destroy h) = destroy w h"

definition run :: "world \<Rightarrow> op list \<Rightarrow> world" where
  "run w ops = foldl step w ops"

text \<open>
  A page before the class has been used: it has a body, no container, no filter
  definition, no object, nothing tracked. Its elements, style sheets and environment are
  arbitrary.
\<close>

definition initial :: "world \<Rightarrow> bool" where
  "initial w =
     (has_body w \<and> body_svgs w = [] \<and> svg_defs w = (\<lambda>c. []) \<and> objs w = (\<lambda>h. None)
      \<and> instances w = {})"

section \<open>Observations used in the statements\<close>

text \<open>The environment test of \<^verbatim>\<open>_addFirefoxFallback\<close>.\<close>

definition fallback :: "world \<Rightarrow> bool" where
  "fallback w = (isFirefox w \<or> \<not> backdropFilterSupported w)"

text \<open>
  The constructor gets through \<^verbatim>\<open>_init\<close>: the container is there and has its
  \<^verbatim>\<open>defs\<close>, or it is not there and the page has a body to put one in.
\<close>

definition constructible :: "world \<Rightarrow> bool" where
  "constructible w = (case getElementById w of None \<Rightarrow> has_body w | Some c \<Rightarrow> has_defs w c)"


text \<open>The filter definitions that are in the document, in document order.\<close>

definition document_filters :: "world \<Rightarrow> filter_node list" where
  "document_filters w = concat (map (svg_defs w) (body_svgs w))"

text \<open>Those of them that bear a given id.\<close>

definition filters_with_id :: "world \<Rightarrow> string \<Rightarrow> filter_node list" where
  "filters_with_id w i = filter (\<lambda>f. fid f = i) (document_filters w)"

text \<open>The attribute lists of the stages of a filter definition that have a given tag.\<close>

definition stages_tagged :: "filter_node \<Rightarrow> string \<Rightarrow> (string \<times> attr_val) list list" where
  "stages_tagged f t = map snd (filter (\<lambda>s. fst s = t) (fstages f))"

definition has_class :: "string \<Rightarrow> child \<Rightarrow> bool" where
  "has_class cl c = (case c of PageChild k \<Rightarrow> False | MadeChild d \<Rightarrow> className d = cl)"

definition overlay_count :: "world \<Rightarrow> nat \<Rightarrow> nat" where
  "overlay_count w e = length (filter (has_class ''chromatic-blur-overlays'') (children (elems w e)))"

definition fallback_count :: "world \<Rightarrow> nat \<Rightarrow> nat" where
  "fallback_count w e = length (filter (has_class ''chromatic-blur-firefox-bg'') (children (elems w e)))"

text \<open>
  The text that \<^verbatim>\<open>_applyStyles\<close> and, in fallback mode, \<^verbatim>\<open>_addFirefoxFallback\<close> after it
  assign to \<^verbatim>\<open>boxShadow\<close>, and what the declaration holds afterwards when it held \<open>old\<close>.
\<close>

definition shadow_after :: "world \<Rightarrow> options \<Rightarrow> string \<Rightarrow> string" where
  "shadow_after w opts old =
     (let s = assign w ''boxShadow'' (inset_shadow (text_of (borderColor opts))) old
      in if fallback w
         then assign w ''boxShadow'' (fallback_shadow (text_of (borderColor opts))) s
         else s)"

text \<open>
  What every run from an initial page maintains: the page has a body and a container in
  the document has its \<^verbatim>\<open>defs\<close>; the container is in the document exactly
  while something is tracked; a tracked object's \<open>defs\<close> is that container; objects and
  filter nodes lie below the allocation counters; and every filter definition under some
  \<open>defs\<close> is the current filter of an object with that \<open>defs\<close> and that id.
\<close>

definition wf :: "world \<Rightarrow> bool" where
  "wf w =
     (has_body w
      \<and> (\<forall>c \<in> set (body_svgs w). has_defs w c)
      \<and> finite (instances w)
      \<and> length (body_svgs w) = (if instances w = {} then 0 else 1)
      \<and> (\<forall>h \<in> instances w. \<exists>this. objs w h = Some this \<and> body_svgs w = [defs this])
      \<and> (\<forall>h this. objs w h = Some this \<longrightarrow> h < next_obj w)
      \<and> (\<forall>c f. f \<in> set (svg_defs w c) \<longrightarrow> fnode f < next_node w)
      \<and> (\<forall>c f. f \<in> set (svg_defs w c) \<longrightarrow>
            (\<exists>h this. objs w h = Some this \<and> filterRef this = Some (fnode f)
               \<and> ident this = fid f \<and> defs this = c)))"

section \<open>A sample page\<close>

definition no_options :: partial_options where
  "no_options = \<lparr>p_redOffset = Absent, p_blueOffset = Absent, p_blurAmount = Absent,
     p_turbulenceFrequency = Absent, p_displacementScale = Absent, p_borderColor = Absent,
     p_addOverlay = Absent, p_addNoise = Absent\<rparr>"

text \<open>
  The partial configuration
  \<^verbatim>\<open>{redOffset: 8, blueOffset: -8, blurAmount: 5, addNoise: false, addOverlay: false}\<close>.
\<close>

definition card_options :: partial_options where
  "card_options = \<lparr>p_redOffset = Value 8, p_blueOffset = Value (- 8), p_blurAmount = Value 5,
     p_turbulenceFrequency = Absent, p_displacementScale = Absent, p_borderColor = Absent,
     p_addOverlay = Value False, p_addNoise = Value False\<rparr>"

definition unstyled :: style where
  "unstyled = \<lparr>backdropFilter = [], WebkitBackdropFilter = [], position = [], overflow = [],
     boxShadow = [], backgroundColor = [], zIndex = []\<rparr>"

text \<open>The cascade of an element that no style sheet positions.\<close>

definition plain_cascade :: "string \<Rightarrow> string" where
  "plain_cascade p = (if p = [] then ''static'' else p)"

text \<open>
  Element 0 is matched by \<^verbatim>\<open>.card\<close>, has no inline style and one child, element 1;
  element 2 is matched by \<^verbatim>\<open>.navbar\<close> and is positioned inline. No style sheet sets a
  position. The engine of the page stores the two box shadows of the default border colour
  in its own serialisation, colour first and lengths with their unit; a box shadow whose
  colour is \<^verbatim>\<open>notacolor\<close> does not parse; every other text is stored as written.
\<close>

definition stored_inset :: string where
  "stored_inset = ''rgba(156, 156, 156, 0.2) 0px 0px 0px 1px inset''"

definition stored_fallback :: string where
  "stored_fallback =
     ''rgba(156, 156, 156, 0.2) 0px 0px 0px 1px inset, rgba(0, 0, 0, 0.15) 0px 4px 12px 0px''"

definition sample_css :: "string \<Rightarrow> string \<Rightarrow> string option" where
  "sample_css prop v =
     (if prop = ''boxShadow'' then
        (if v = inset_shadow ''rgba(156, 156, 156, 0.2)'' then Some stored_inset
         else if v = fallback_shadow ''rgba(156, 156, 156, 0.2)'' then Some stored_fallback
         else if v = inset_shadow ''notacolor'' \<or> v = fallback_shadow ''notacolor'' then None
         else Some v)
      else Some v)"

definition page :: "bool \<Rightarrow> world" where
  "page firefox =
     \<lparr>elems = (\<lambda>k. if k = 0 then \<lparr>style = unstyled, cascade = plain_cascade,
                                    children = [PageChild 1]\<rparr>
                    else if k = 2 then \<lparr>style = unstyled\<lparr>position := ''fixed'', boxShadow := ''none''\<rparr>,
                                         cascade = plain_cascade, children = []\<rparr>
                    else \<lparr>style = unstyled, cascade = plain_cascade, children = []\<rparr>),
      querySelector = (\<lambda>s. if s = ''.card'' then Matches 0
                            else if s = ''.navbar'' then Matches 2
                            else if s = [] then Malformed else NoMatch),
      isFirefox = firefox,
      backdropFilterSupported = True,
      body_svgs = [],
      svg_defs = (\<lambda>c. []),
      next_node = 0,
      objs = (\<lambda>h. None),
      next_obj = 0,
      instances = {},
      has_body = True,
      has_defs = (\<lambda>c. False),
      css = sample_css,
      div_cascade = (\<lambda>cl. plain_cascade)\<rparr>"


text \<open>
  Element 2 under a style sheet rule \<^verbatim>\<open>position: fixed !important\<close>, with the inline
  position \<^verbatim>\<open>static\<close>.
\<close>

definition pinned :: world where
  "pinned = (page False)
     \<lparr>elems := (elems (page False))
        (2 := \<lparr>style = unstyled\<lparr>position := ''static''\<rparr>, cascade = (\<lambda>p. ''fixed''),
               children = []\<rparr>)\<rparr>"

section \<open>Auxiliary notions for the proofs\<close>

text \<open>What \<^verbatim>\<open>_ensureSVGContainer\<close> and \<^verbatim>\<open>_init\<close> return when they do not raise.\<close>

definition ensured :: "world \<Rightarrow> world \<times> nat" where
  "ensured w =
     (case getElementById w of
        Some c \<Rightarrow> (w, c)
      | None \<Rightarrow>
          (let c = next_node w
           in (w\<lparr>next_node := Suc c,
                 svg_defs := (svg_defs w)(c := []),
                 has_defs := (has_defs w)(c := True),
                 body_svgs := c # body_svgs w\<rparr>, c)))"

definition inited :: "world \<Rightarrow> nat \<Rightarrow> options \<Rightarrow> string \<Rightarrow> original_styles \<Rightarrow> world \<times> chromatic_blur" where
  "inited w e opts i orig =
     (let (w1, c) = ensured w;
          this = \<lparr>element = e, options = opts, ident = i, originalStyles = orig,
                  svgContainer = c, defs = c, filterRef = None,
                  overlayContainer = None, firefoxBg = None\<rparr>;
          (w2, this2) = createFilter w1 this;
          (w3, this3) = applyStyles w2 this2
      in if truthy (addOverlay (options this3)) \<or> truthy (addNoise (options this3))
         then addOverlays w3 this3 else (w3, this3))"

text \<open>The filter definition that \<^verbatim>\<open>_createFilter\<close> builds.\<close>

definition new_filter :: "nat \<Rightarrow> string \<Rightarrow> options \<Rightarrow> filter_node" where
  "new_filter n i opts =
     \<lparr>fnode = n, fid = i,
      fattrs = [(''x'', S ''-50%''), (''y'', S ''-50%''),
                (''width'', S ''200%''), (''height'', S ''200%'')],
      fstages = filter_markup opts\<rparr>"

text \<open>The child is not the node that the field refers to.\<close>

definition kept :: "nat option \<Rightarrow> child \<Rightarrow> bool" where
  "kept r c = (case r of None \<Rightarrow> True | Some n \<Rightarrow> \<not> is_div n c)"

section \<open>Styles: the effect of each private method\<close>

lemma promote_frame:
  "body_svgs (foldl (promote_child e) w cs) = body_svgs w"
  "svg_defs (foldl (promote_child e) w cs) = svg_defs w"
  "next_node (foldl (promote_child e) w cs) = next_node w"
  "objs (foldl (promote_child e) w cs) = objs w"
  "next_obj (foldl (promote_child e) w cs) = next_obj w"
  "instances (foldl (promote_child e) w cs) = instances w"
  "isFirefox (foldl (promote_child e) w cs) = isFirefox w"
  "backdropFilterSupported (foldl (promote_child e) w cs) = backdropFilterSupported w"
  "querySelector (foldl (promote_child e) w cs) = querySelector w"
  "has_body (foldl (promote_child e) w cs) = has_body w"
  "has_defs (foldl (promote_child e) w cs) = has_defs w"
  "css (foldl (promote_child e) w cs) = css w"
  by (induction cs arbitrary: w; simp add: promote_child_def split: child.splits)+

lemma promote_style_keeps:
  "backdropFilter (style (promote_style el)) = backdropFilter (style el)"
  "WebkitBackdropFilter (style (promote_style el)) = WebkitBackdropFilter (style el)"
  "overflow (style (promote_style el)) = overflow (style el)"
  "boxShadow (style (promote_style el)) = boxShadow (style el)"
  "backgroundColor (style (promote_style el)) = backgroundColor (style el)"
  "cascade (promote_style el) = cascade el"
  "children (promote_style el) = children el"
  by (simp_all add: promote_style_def Let_def)

lemma promote_style_position:
  "position (style (promote_style el)) =
     (if computed_position el = ''static'' then ''relative'' else position (style el))"
  by (simp add: promote_style_def Let_def)

lemma promote_child_keeps:
  "backdropFilter (style (elems (promote_child e w c) k)) = backdropFilter (style (elems w k))"
  "WebkitBackdropFilter (style (elems (promote_child e w c) k)) = WebkitBackdropFilter (style (elems w k))"
  "overflow (style (elems (promote_child e w c) k)) = overflow (style (elems w k))"
  "boxShadow (style (elems (promote_child e w c) k)) = boxShadow (style (elems w k))"
  "backgroundColor (style (elems (promote_child e w c) k)) = backgroundColor (style (elems w k))"
  "cascade (elems (promote_child e w c) k) = cascade (elems w k)"
  by (simp_all add: promote_child_def promote_style_keeps split: child.splits)

lemma promote_keeps:
  "backdropFilter (style (elems (foldl (promote_child e) w cs) k)) = backdropFilter (style (elems w k))"
  "WebkitBackdropFilter (style (elems (foldl (promote_child e) w cs) k)) = WebkitBackdropFilter (style (elems w k))"
  "overflow (style (elems (foldl (promote_child e) w cs) k)) = overflow (style (elems w k))"
  "boxShadow (style (elems (foldl (promote_child e) w cs) k)) = boxShadow (style (elems w k))"
  "backgroundColor (style (elems (foldl (promote_child e) w cs) k)) = backgroundColor (style (elems w k))"
  "cascade (elems (foldl (promote_child e) w cs) k) = cascade (elems w k)"
  by (induction cs arbitrary: w; simp add: promote_child_keeps)+

lemma promote_child_position:
  "computed_position (elems w k) \<noteq> ''static'' \<Longrightarrow>
     position (style (elems (promote_child e w c) k)) = position (style (elems w k))"
  by (simp add: promote_child_def promote_style_position split: child.splits)

lemma promote_position:
  "computed_position (elems w k) \<noteq> ''static'' \<Longrightarrow>
     position (style (elems (foldl (promote_child e) w cs) k)) = position (style (elems w k))"
proof (induction cs arbitrary: w)
  case Nil
  then show ?case by simp
next
  case (Cons c cs)
  have p: "position (style (elems (promote_child e w c) k)) = position (style (elems w k))"
    using Cons.prems by (rule promote_child_position)
  have "computed_position (elems (promote_child e w c) k) = computed_position (elems w k)"
    by (simp add: computed_position_def p promote_child_keeps)
  with Cons show ?case by (simp add: p)
qed

lemma promote_child_position_or:
  "position (style (elems (promote_child e w c) k)) = position (style (elems w k))
   \<or> position (style (elems (promote_child e w c) k)) = ''relative''"
  by (simp add: promote_child_def promote_style_position split: child.splits)

lemma promote_position_or:
  "position (style (elems (foldl (promote_child e) w cs) k)) = position (style (elems w k))
   \<or> position (style (elems (foldl (promote_child e) w cs) k)) = ''relative''"
proof (induction cs arbitrary: w)
  case Nil
  then show ?case by simp
next
  case (Cons c cs)
  from Cons.IH [of "promote_child e w c"] promote_child_position_or [of e w c k]
  show ?case by auto
qed

lemma fallback_this:
  "snd (addFirefoxFallback w this) =
     (if fallback w then this\<lparr>firefoxBg := Some (next_node w)\<rparr> else this)"
  by (simp add: addFirefoxFallback_def fallback_def Let_def)

lemma fallback_frame:
  "body_svgs (fst (addFirefoxFallback w this)) = body_svgs w"
  "svg_defs (fst (addFirefoxFallback w this)) = svg_defs w"
  "objs (fst (addFirefoxFallback w this)) = objs w"
  "next_obj (fst (addFirefoxFallback w this)) = next_obj w"
  "instances (fst (addFirefoxFallback w this)) = instances w"
  "isFirefox (fst (addFirefoxFallback w this)) = isFirefox w"
  "backdropFilterSupported (fst (addFirefoxFallback w this)) = backdropFilterSupported w"
  "querySelector (fst (addFirefoxFallback w this)) = querySelector w"
  "has_body (fst (addFirefoxFallback w this)) = has_body w"
  "has_defs (fst (addFirefoxFallback w this)) = has_defs w"
  "css (fst (addFirefoxFallback w this)) = css w"
  "next_node (fst (addFirefoxFallback w this)) = (if fallback w then Suc (next_node w) else next_node w)"
  by (simp_all add: addFirefoxFallback_def fallback_def Let_def promote_frame)

lemma fallback_styles:
  "backdropFilter (style (elems (fst (addFirefoxFallback w this)) k)) = backdropFilter (style (elems w k))"
  "WebkitBackdropFilter (style (elems (fst (addFirefoxFallback w this)) k)) = WebkitBackdropFilter (style (elems w k))"
  "overflow (style (elems (fst (addFirefoxFallback w this)) k)) = overflow (style (elems w k))"
  "cascade (elems (fst (addFirefoxFallback w this)) k) = cascade (elems w k)"
  "boxShadow (style (elems (fst (addFirefoxFallback w this)) (element this))) =
     (if fallback w
      then assign w ''boxShadow'' (fallback_shadow (text_of (borderColor (options this))))
             (boxShadow (style (elems w (element this))))
      else boxShadow (style (elems w (element this))))"
  "backgroundColor (style (elems (fst (addFirefoxFallback w this)) (element this))) =
     (if fallback w
      then assign w ''backgroundColor'' ''rgba(255, 255, 255, 0.85)''
             (backgroundColor (style (elems w (element this))))
      else backgroundColor (style (elems w (element this))))"
  by (simp_all add: addFirefoxFallback_def fallback_def Let_def promote_keeps)

lemma fallback_unfold:
  "fallback w \<Longrightarrow>
     fst (addFirefoxFallback w this) =
       foldl (promote_child (element this))
         (w\<lparr>next_node := Suc (next_node w),
            elems := (elems w)(element this := (elems w (element this))
              \<lparr>style := (style (elems w (element this)))
                 \<lparr>backgroundColor :=
                    assign w ''backgroundColor'' ''rgba(255, 255, 255, 0.85)''
                      (backgroundColor (style (elems w (element this)))),
                  boxShadow :=
                    assign w ''boxShadow'' (fallback_shadow (text_of (borderColor (options this))))
                      (boxShadow (style (elems w (element this))))\<rparr>,
               children := MadeChild \<lparr>node = next_node w, className = ''chromatic-blur-firefox-bg'',
                  div_position = ''absolute'', div_zIndex = ''0'', kids = []\<rparr>
                  # children (elems w (element this))\<rparr>)\<rparr>)
         (children (elems w (element this)))"
  by (simp add: addFirefoxFallback_def fallback_def Let_def)

lemma fallback_position:
  assumes ns: "computed_position (elems w k) \<noteq> ''static''"
  shows "position (style (elems (fst (addFirefoxFallback w this)) k)) = position (style (elems w k))"
proof (cases "fallback w")
  case False
  then show ?thesis by (simp add: addFirefoxFallback_def fallback_def)
next
  case True
  define w1 where "w1 = w\<lparr>next_node := Suc (next_node w),
            elems := (elems w)(element this := (elems w (element this))
              \<lparr>style := (style (elems w (element this)))
                 \<lparr>backgroundColor :=
                    assign w ''backgroundColor'' ''rgba(255, 255, 255, 0.85)''
                      (backgroundColor (style (elems w (element this)))),
                  boxShadow :=
                    assign w ''boxShadow'' (fallback_shadow (text_of (borderColor (options this))))
                      (boxShadow (style (elems w (element this))))\<rparr>,
               children := MadeChild \<lparr>node = next_node w, className = ''chromatic-blur-firefox-bg'',
                  div_position = ''absolute'', div_zIndex = ''0'', kids = []\<rparr>
                  # children (elems w (element this))\<rparr>)\<rparr>"
  have same: "position (style (elems w1 k)) = position (style (elems w k))"
    "cascade (elems w1 k) = cascade (elems w k)"
    by (simp_all add: w1_def)
  then have "computed_position (elems w1 k) \<noteq> ''static''"
    using ns by (simp add: computed_position_def)
  then have "position (style (elems (foldl (promote_child (element this)) w1
        (children (elems w (element this)))) k)) = position (style (elems w1 k))"
    by (rule promote_position)
  then show ?thesis
    by (simp add: fallback_unfold [OF True] w1_def [symmetric] same)
qed

lemma fallback_position_or:
  "position (style (elems (fst (addFirefoxFallback w this)) k)) = position (style (elems w k))
   \<or> position (style (elems (fst (addFirefoxFallback w this)) k)) = ''relative''"
proof (cases "fallback w")
  case False
  then show ?thesis by (simp add: addFirefoxFallback_def fallback_def)
next
  case True
  define w1 where "w1 = w\<lparr>next_node := Suc (next_node w),
            elems := (elems w)(element this := (elems w (element this))
              \<lparr>style := (style (elems w (element this)))
                 \<lparr>backgroundColor :=
                    assign w ''backgroundColor'' ''rgba(255, 255, 255, 0.85)''
                      (backgroundColor (style (elems w (element this)))),
                  boxShadow :=
                    assign w ''boxShadow'' (fallback_shadow (text_of (borderColor (options this))))
                      (boxShadow (style (elems w (element this))))\<rparr>,
               children := MadeChild \<lparr>node = next_node w, className = ''chromatic-blur-firefox-bg'',
                  div_position = ''absolute'', div_zIndex = ''0'', kids = []\<rparr>
                  # children (elems w (element this))\<rparr>)\<rparr>"
  have same: "position (style (elems w1 k)) = position (style (elems w k))"
    by (simp add: w1_def)
  from promote_position_or [of "element this" w1 "children (elems w (element this))" k]
  show ?thesis
    by (simp add: fallback_unfold [OF True] w1_def [symmetric] same)
qed

lemma applyStyles_this:
  "snd (applyStyles w this) =
     (if fallback w then this\<lparr>firefoxBg := Some (next_node w)\<rparr> else this)"
  by (simp add: applyStyles_def Let_def fallback_this fallback_def)

lemma applyStyles_frame:
  "body_svgs (fst (applyStyles w this)) = body_svgs w"
  "svg_defs (fst (applyStyles w this)) = svg_defs w"
  "objs (fst (applyStyles w this)) = objs w"
  "next_obj (fst (applyStyles w this)) = next_obj w"
  "instances (fst (applyStyles w this)) = instances w"
  "isFirefox (fst (applyStyles w this)) = isFirefox w"
  "backdropFilterSupported (fst (applyStyles w this)) = backdropFilterSupported w"
  "querySelector (fst (applyStyles w this)) = querySelector w"
  "has_body (fst (applyStyles w this)) = has_body w"
  "has_defs (fst (applyStyles w this)) = has_defs w"
  "css (fst (applyStyles w this)) = css w"
  "next_node (fst (applyStyles w this)) = (if fallback w then Suc (next_node w) else next_node w)"
  by (simp_all add: applyStyles_def Let_def fallback_frame fallback_def)

lemma assign_cong: "css w' = css w \<Longrightarrow> assign w' prop v old = assign w prop v old"
  by (simp add: assign_def)

lemma assign_elems [simp]: "assign (w\<lparr>elems := x\<rparr>) prop v old = assign w prop v old"
  by (simp add: assign_def)

lemma applyStyles_styles:
  "overflow (style (elems (fst (applyStyles w this)) (element this))) = ''hidden''"
  "boxShadow (style (elems (fst (applyStyles w this)) (element this))) =
     shadow_after w (options this) (boxShadow (style (elems w (element this))))"
  "backgroundColor (style (elems (fst (applyStyles w this)) (element this))) =
     (if fallback w
      then assign w ''backgroundColor'' ''rgba(255, 255, 255, 0.85)''
             (backgroundColor (style (elems w (element this))))
      else backgroundColor (style (elems w (element this))))"
  by (simp_all add: applyStyles_def Let_def fallback_styles shadow_after_def)
     (simp_all add: fallback_def)

lemma applyStyles_position:
  "position (style (elems (fst (applyStyles w this)) (element this))) =
     (if computed_position (elems w (element this)) = ''static'' then ''relative''
      else position (style (elems w (element this))))"
proof -
  define e where "e = element this"
  define el where "el = elems w e"
  define s1 where "s1 = (style el)
                 \<lparr>backdropFilter :=
                    assign w ''backdropFilter'' (filterUrl this) (backdropFilter (style el)),
                  WebkitBackdropFilter :=
                    assign w ''WebkitBackdropFilter'' (filterUrl this)
                      (WebkitBackdropFilter (style el)),
                  overflow := ''hidden'',
                  boxShadow :=
                    assign w ''boxShadow'' (inset_shadow (text_of (borderColor (options this))))
                      (boxShadow (style el))\<rparr>"
  define s2 where "s2 = (if computed_position el = ''static'' then s1\<lparr>position := ''relative''\<rparr> else s1)"
  define w1 where "w1 = w\<lparr>elems := (elems w)(e := el\<lparr>style := s2\<rparr>)\<rparr>"
  have a: "fst (applyStyles w this) = fst (addFirefoxFallback w1 this)"
    by (simp add: applyStyles_def Let_def w1_def s2_def s1_def el_def e_def)
  have p: "position (style (elems w1 e)) =
      (if computed_position el = ''static'' then ''relative'' else position (style el))"
    by (simp add: w1_def s2_def s1_def)
  show ?thesis
  proof (cases "computed_position el = ''static''")
    case True
    with p have "position (style (elems w1 e)) = ''relative''" by simp
    with fallback_position_or [of w1 this e]
    have "position (style (elems (fst (addFirefoxFallback w1 this)) e)) = ''relative''"
      by auto
    with a True show ?thesis by (simp add: e_def el_def)
  next
    case False
    with p have q: "position (style (elems w1 e)) = position (style el)" by simp
    have "cascade (elems w1 e) = cascade el" by (simp add: w1_def)
    with q False have "computed_position (elems w1 e) \<noteq> ''static''"
      by (simp add: computed_position_def)
    then have "position (style (elems (fst (addFirefoxFallback w1 this)) e))
        = position (style (elems w1 e))"
      by (rule fallback_position)
    with a q False show ?thesis by (simp add: e_def el_def)
  qed
qed

lemma ensure_frame:
  "elems (fst (ensured w)) = elems w"
  "objs (fst (ensured w)) = objs w"
  "next_obj (fst (ensured w)) = next_obj w"
  "instances (fst (ensured w)) = instances w"
  "isFirefox (fst (ensured w)) = isFirefox w"
  "backdropFilterSupported (fst (ensured w)) = backdropFilterSupported w"
  "querySelector (fst (ensured w)) = querySelector w"
  "has_body (fst (ensured w)) = has_body w"
  "css (fst (ensured w)) = css w"
  by (simp_all add: ensured_def Let_def split: option.splits)

lemma createFilter_frame:
  "elems (fst (createFilter w this)) = elems w"
  "body_svgs (fst (createFilter w this)) = body_svgs w"
  "objs (fst (createFilter w this)) = objs w"
  "next_obj (fst (createFilter w this)) = next_obj w"
  "instances (fst (createFilter w this)) = instances w"
  "isFirefox (fst (createFilter w this)) = isFirefox w"
  "backdropFilterSupported (fst (createFilter w this)) = backdropFilterSupported w"
  "querySelector (fst (createFilter w this)) = querySelector w"
  "has_body (fst (createFilter w this)) = has_body w"
  "has_defs (fst (createFilter w this)) = has_defs w"
  "css (fst (createFilter w this)) = css w"
  "next_node (fst (createFilter w this)) = Suc (next_node w)"
  "snd (createFilter w this) = this\<lparr>filterRef := Some (next_node w)\<rparr>"
  by (simp_all add: createFilter_def Let_def)

lemma addOverlays_frame:
  "style (elems (fst (addOverlays w this)) k) = style (elems w k)"
  "cascade (elems (fst (addOverlays w this)) k) = cascade (elems w k)"
  "body_svgs (fst (addOverlays w this)) = body_svgs w"
  "svg_defs (fst (addOverlays w this)) = svg_defs w"
  "objs (fst (addOverlays w this)) = objs w"
  "next_obj (fst (addOverlays w this)) = next_obj w"
  "instances (fst (addOverlays w this)) = instances w"
  "isFirefox (fst (addOverlays w this)) = isFirefox w"
  "backdropFilterSupported (fst (addOverlays w this)) = backdropFilterSupported w"
  "querySelector (fst (addOverlays w this)) = querySelector w"
  "has_body (fst (addOverlays w this)) = has_body w"
  "has_defs (fst (addOverlays w this)) = has_defs w"
  "css (fst (addOverlays w this)) = css w"
  "next_node (fst (addOverlays w this)) = Suc (next_node w)"
  "snd (addOverlays w this) = this\<lparr>overlayContainer := Some (next_node w)\<rparr>"
  by (simp_all add: addOverlays_def Let_def)

lemma options_kept:
  "options (snd (applyStyles w this)) = options this"
  "options (snd (createFilter w this)) = options this"
  by (simp_all add: applyStyles_this createFilter_frame)

lemma init_unfold:
  "inited w e opts i orig =
     (let r1 = ensured w;
          this = \<lparr>element = e, options = opts, ident = i, originalStyles = orig,
                  svgContainer = snd r1, defs = snd r1, filterRef = None,
                  overlayContainer = None, firefoxBg = None\<rparr>;
          r2 = createFilter (fst r1) this;
          r3 = applyStyles (fst r2) (snd r2)
      in if truthy (addOverlay opts) \<or> truthy (addNoise opts)
         then addOverlays (fst r3) (snd r3) else r3)"
  by (simp add: inited_def Let_def split_def options_kept)

text \<open>\<^verbatim>\<open>_init\<close> raises exactly when the page is not constructible.\<close>

lemma ensure_cases_ok:
  "constructible w \<Longrightarrow>
     ensureSVGContainer w = Inr (ensured w) \<and> defs_of (fst (ensured w)) (snd (ensured w)) = Some (snd (ensured w))"
  by (auto simp: constructible_def ensureSVGContainer_def ensured_def defs_of_def Let_def
      split: option.splits)

lemma init_ok:
  assumes "constructible w"
  shows "init w e opts i orig = Inr (inited w e opts i orig)"
proof -
  obtain w1 c where r: "ensured w = (w1, c)" by (cases "ensured w")
  from ensure_cases_ok [OF assms] r
  have "ensureSVGContainer w = Inr (w1, c)" "defs_of w1 c = Some c" by simp_all
  then show ?thesis
    by (simp add: init_def inited_def r Let_def split_def)
qed

lemma init_fail:
  assumes "\<not> constructible w"
  shows "init w e opts i orig = Inl TypeError"
  using assms
  by (auto simp: constructible_def init_def ensureSVGContainer_def defs_of_def Let_def
      split: option.splits)

lemma fallback_create [simp]: "fallback (fst (createFilter w this)) = fallback w"
  by (simp add: fallback_def createFilter_frame)

lemma fallback_ensure [simp]: "fallback (fst (ensured w)) = fallback w"
  by (simp add: fallback_def ensure_frame)

lemma init_this:
  "element (snd (inited w e opts i orig)) = e"
  "options (snd (inited w e opts i orig)) = opts"
  "ident (snd (inited w e opts i orig)) = i"
  "originalStyles (snd (inited w e opts i orig)) = orig"
  by (simp_all add: init_unfold Let_def addOverlays_frame applyStyles_this createFilter_frame)

lemma init_frame:
  "objs (fst (inited w e opts i orig)) = objs w"
  "next_obj (fst (inited w e opts i orig)) = next_obj w"
  "instances (fst (inited w e opts i orig)) = instances w"
  "has_body (fst (inited w e opts i orig)) = has_body w"
  "css (fst (inited w e opts i orig)) = css w"
  by (simp_all add: init_unfold Let_def addOverlays_frame applyStyles_frame createFilter_frame
      ensure_frame)

lemma shadow_after_cong:
  "css w' = css w \<Longrightarrow> fallback w' = fallback w \<Longrightarrow> shadow_after w' opts old = shadow_after w opts old"
  by (simp add: shadow_after_def assign_def Let_def)

lemma init_styles:
  "position (style (elems (fst (inited w e opts i orig)) e)) =
     (if computed_position (elems w e) = ''static'' then ''relative''
      else position (style (elems w e)))"
  "boxShadow (style (elems (fst (inited w e opts i orig)) e)) =
     shadow_after w opts (boxShadow (style (elems w e)))"
  "backgroundColor (style (elems (fst (inited w e opts i orig)) e)) =
     (if fallback w
      then assign w ''backgroundColor'' ''rgba(255, 255, 255, 0.85)''
             (backgroundColor (style (elems w e)))
      else backgroundColor (style (elems w e)))"
proof -
  define r1 where "r1 = ensured w"
  define this where "this = \<lparr>element = e, options = opts, ident = i, originalStyles = orig,
                  svgContainer = snd r1, defs = snd r1, filterRef = None,
                  overlayContainer = None, firefoxBg = None\<rparr>"
  define r2 where "r2 = createFilter (fst r1) this"
  define r3 where "r3 = applyStyles (fst r2) (snd r2)"
  have el: "element (snd r2) = e" "options (snd r2) = opts"
    by (simp_all add: r2_def createFilter_frame this_def)
  have w2: "elems (fst r2) = elems w" "fallback (fst r2) = fallback w" "css (fst r2) = css w"
    by (simp_all add: r2_def r1_def createFilter_frame ensure_frame)
  have st: "style (elems (fst (inited w e opts i orig)) e) = style (elems (fst r3) e)"
    by (simp add: init_unfold Let_def addOverlays_frame r3_def r2_def this_def r1_def)
  show "position (style (elems (fst (inited w e opts i orig)) e)) =
     (if computed_position (elems w e) = ''static'' then ''relative''
      else position (style (elems w e)))"
    using applyStyles_position [of "fst r2" "snd r2"] by (simp add: st r3_def el w2)
  show "boxShadow (style (elems (fst (inited w e opts i orig)) e)) =
     shadow_after w opts (boxShadow (style (elems w e)))"
    using applyStyles_styles(2) [of "fst r2" "snd r2"]
    by (simp add: st r3_def el w2 shadow_after_cong [OF w2(3) w2(2)])
  show "backgroundColor (style (elems (fst (inited w e opts i orig)) e)) =
     (if fallback w
      then assign w ''backgroundColor'' ''rgba(255, 255, 255, 0.85)''
             (backgroundColor (style (elems w e)))
      else backgroundColor (style (elems w e)))"
    using applyStyles_styles(3) [of "fst r2" "snd r2"]
    by (simp add: st r3_def el w2 assign_cong [OF w2(3)])
qed

lemma constructor_ok:
  "resolve w t = Inr (Some e) \<Longrightarrow> constructible w \<Longrightarrow>
     constructor w t opts i =
       (Inr (next_obj w),
        (fst (inited w e (spread defaults opts) i
           \<lparr>orig_backdropFilter = backdropFilter (style (elems w e)),
            orig_WebkitBackdropFilter = WebkitBackdropFilter (style (elems w e)),
            orig_position = position (style (elems w e)),
            orig_overflow = overflow (style (elems w e))\<rparr>))
        \<lparr>objs := (objs w)(next_obj w \<mapsto> snd (inited w e (spread defaults opts) i
           \<lparr>orig_backdropFilter = backdropFilter (style (elems w e)),
            orig_WebkitBackdropFilter = WebkitBackdropFilter (style (elems w e)),
            orig_position = position (style (elems w e)),
            orig_overflow = overflow (style (elems w e))\<rparr>)),
          next_obj := Suc (next_obj w),
          instances := insert (next_obj w) (instances w)\<rparr>)"
  by (simp add: constructor_def Let_def split_def init_frame init_ok)

lemma constructor_fail:
  "resolve w t = Inr (Some e) \<Longrightarrow> \<not> constructible w \<Longrightarrow>
     constructor w t opts i = (Inl TypeError, w)"
  by (simp add: constructor_def Let_def init_fail)

lemma constructor_succeeded:
  assumes "resolve w t = Inr (Some e)" and "constructor w t opts i = (Inr h, w1)"
  shows "constructible w"
proof (rule ccontr)
  assume "\<not> constructible w"
  from constructor_fail [OF assms(1) this, of opts i] assms(2) show False by simp
qed

lemma remove_div_style [simp]:
  "style (elems (remove_div w n) k) = style (elems w k)"
  by (simp add: remove_div_def)

lemma remove_filter_elems [simp]: "elems (remove_filter w n) = elems w"
  by (simp add: remove_filter_def)

lemma destroy_style:
  "objs w h = Some this \<Longrightarrow>
     style (elems (destroy w h) (element this)) =
       restore (originalStyles this) (style (elems w (element this)))"
  by (simp add: destroy_def Let_def split: option.splits)

section \<open>The invariant of a run\<close>


lemma createFilter_defs:
  "svg_defs (fst (createFilter w this)) =
     (svg_defs w)(defs this := svg_defs w (defs this) @ [new_filter (next_node w) (ident this) (options this)])"
  by (simp add: createFilter_def Let_def new_filter_def)

lemma ensure_cases:
  "ensured w =
     (if body_svgs w = []
      then (w\<lparr>next_node := Suc (next_node w),
              svg_defs := (svg_defs w)(next_node w := []),
              has_defs := (has_defs w)(next_node w := True),
              body_svgs := [next_node w]\<rparr>, next_node w)
      else (w, hd (body_svgs w)))"
  by (simp add: ensured_def getElementById_def Let_def split: list.splits)

lemma init_svg:
  "body_svgs (fst (inited w e opts i orig)) = body_svgs (fst (ensured w))"
  "svg_defs (fst (inited w e opts i orig)) =
     (svg_defs (fst (ensured w)))
       (snd (ensured w) :=
          svg_defs (fst (ensured w)) (snd (ensured w)) @
          [new_filter (next_node (fst (ensured w))) i opts])"
  "defs (snd (inited w e opts i orig)) = snd (ensured w)"
  "filterRef (snd (inited w e opts i orig)) = Some (next_node (fst (ensured w)))"
  "next_node (fst (ensured w)) < next_node (fst (inited w e opts i orig))"
  "has_defs (fst (inited w e opts i orig)) = has_defs (fst (ensured w))"
  by (simp_all add: init_unfold Let_def addOverlays_frame applyStyles_frame applyStyles_this
      createFilter_frame createFilter_defs)

lemma update_fields:
  assumes "objs w h = Some this"
  shows "body_svgs (update w h p) = body_svgs w"
    and "instances (update w h p) = instances w"
    and "next_obj (update w h p) = next_obj w"
    and "next_node w < next_node (update w h p)"
    and "has_body (update w h p) = has_body w"
    and "has_defs (update w h p) = has_defs w"
    and "svg_defs (update w h p) =
           (svg_defs (case filterRef this of Some f \<Rightarrow> remove_filter w f | None \<Rightarrow> w))
             (defs this :=
                svg_defs (case filterRef this of Some f \<Rightarrow> remove_filter w f | None \<Rightarrow> w) (defs this) @
                [new_filter (next_node w) (ident this) (spread (options this) p)])"
    and "\<exists>this'. objs (update w h p) = (objs w)(h \<mapsto> this') \<and> defs this' = defs this
           \<and> ident this' = ident this \<and> element this' = element this
           \<and> options this' = spread (options this) p \<and> filterRef this' = Some (next_node w)
           \<and> overlayContainer this' = overlayContainer this"
  using assms
  by (auto simp: update_def Let_def split_def applyStyles_frame applyStyles_this
      createFilter_frame createFilter_defs remove_filter_def split: option.splits)

lemma destroy_fields:
  assumes "objs w h = Some this"
  shows "objs (destroy w h) = objs w"
    and "next_obj (destroy w h) = next_obj w"
    and "next_node (destroy w h) = next_node w"
    and "instances (destroy w h) = instances w - {h}"
    and "has_body (destroy w h) = has_body w"
    and "has_defs (destroy w h) = has_defs w"
    and "body_svgs (destroy w h) =
           (if instances w - {h} = {}
            then (case body_svgs w of [] \<Rightarrow> [] | c # cs \<Rightarrow> removeAll c (body_svgs w))
            else body_svgs w)"
    and "svg_defs (destroy w h) =
           svg_defs (case filterRef this of Some f \<Rightarrow> remove_filter w f | None \<Rightarrow> w)"
  using assms
  by (simp_all add: destroy_def Let_def getElementById_def remove_div_def remove_filter_def
      split: option.splits list.splits)

lemma set_backdrop_frame:
  "objs (set_backdrop w e v) = objs w"
  "next_obj (set_backdrop w e v) = next_obj w"
  "next_node (set_backdrop w e v) = next_node w"
  "instances (set_backdrop w e v) = instances w"
  "body_svgs (set_backdrop w e v) = body_svgs w"
  "svg_defs (set_backdrop w e v) = svg_defs w"
  "has_body (set_backdrop w e v) = has_body w"
  "has_defs (set_backdrop w e v) = has_defs w"
  by (simp_all add: set_backdrop_def)

lemma wf_enable: "wf w \<Longrightarrow> wf (enable w h)"
  by (cases "objs w h") (simp_all add: enable_def wf_def set_backdrop_frame)

lemma wf_disable: "wf w \<Longrightarrow> wf (disable w h)"
  by (cases "objs w h") (simp_all add: disable_def wf_def set_backdrop_frame)

lemma remove_filter_svg:
  "svg_defs (case r of Some f \<Rightarrow> remove_filter w f | None \<Rightarrow> w) c =
     (case r of Some n \<Rightarrow> filter (\<lambda>f. fnode f \<noteq> n) (svg_defs w c) | None \<Rightarrow> svg_defs w c)"
  by (simp add: remove_filter_def split: option.splits)

lemma wf_destroy:
  assumes "wf w"
  shows "wf (destroy w h)"
proof (cases "objs w h")
  case None
  then show ?thesis using assms by (simp add: destroy_def)
next
  case (Some this)
  note f = destroy_fields [OF Some]
  have mem: "\<And>c x. x \<in> set (svg_defs (destroy w h) c) \<Longrightarrow> x \<in> set (svg_defs w c)"
    by (auto simp: f remove_filter_svg split: option.splits)
  show ?thesis
    unfolding wf_def
  proof (intro conjI)
    show "has_body (destroy w h)" using assms by (simp add: f wf_def)
    show "\<forall>c\<in>set (body_svgs (destroy w h)). has_defs (destroy w h) c"
      using assms by (auto simp: f wf_def split: list.splits if_splits)
    show "finite (instances (destroy w h))" using assms by (simp add: f wf_def)
    show "length (body_svgs (destroy w h)) = (if instances (destroy w h) = {} then 0 else 1)"
      using assms by (auto simp: f wf_def split: list.splits if_splits)
    show "\<forall>k\<in>instances (destroy w h). \<exists>this. objs (destroy w h) k = Some this \<and> body_svgs (destroy w h) = [defs this]"
      using assms by (auto simp: f wf_def)
    show "\<forall>k this. objs (destroy w h) k = Some this \<longrightarrow> k < next_obj (destroy w h)"
      using assms by (simp add: f wf_def)
    show "\<forall>c x. x \<in> set (svg_defs (destroy w h) c) \<longrightarrow> fnode x < next_node (destroy w h)"
      using assms mem unfolding f(3) wf_def by blast
    show "\<forall>c x. x \<in> set (svg_defs (destroy w h) c) \<longrightarrow>
        (\<exists>k this. objs (destroy w h) k = Some this \<and> filterRef this = Some (fnode x)
          \<and> ident this = fid x \<and> defs this = c)"
      using assms mem unfolding f(1) wf_def by blast
  qed
qed


lemma wf_update:
  assumes "wf w"
  shows "wf (update w h p)"
proof (cases "objs w h")
  case None
  then show ?thesis using assms by (simp add: update_def)
next
  case (Some this)
  note f = update_fields [OF Some, of p]
  from f(8) obtain this' where o: "objs (update w h p) = (objs w)(h \<mapsto> this')"
    and t: "defs this' = defs this" "ident this' = ident this"
      "filterRef this' = Some (next_node w)"
    by blast
  have mem: "x \<in> set (svg_defs w c) \<and> filterRef this \<noteq> Some (fnode x)
      \<or> x = new_filter (next_node w) (ident this) (spread (options this) p) \<and> c = defs this"
    if "x \<in> set (svg_defs (update w h p) c)" for x c
    using that by (auto simp: f(7) remove_filter_def split: option.splits if_splits)
  show ?thesis
    unfolding wf_def
  proof (intro conjI)
    show "has_body (update w h p)" using assms by (simp add: f wf_def)
    show "\<forall>c\<in>set (body_svgs (update w h p)). has_defs (update w h p) c"
      using assms by (simp add: f wf_def)
    show "finite (instances (update w h p))" using assms by (simp add: f wf_def)
    show "length (body_svgs (update w h p)) = (if instances (update w h p) = {} then 0 else 1)"
      using assms by (simp add: f wf_def)
    show "\<forall>k\<in>instances (update w h p). \<exists>this. objs (update w h p) k = Some this
        \<and> body_svgs (update w h p) = [defs this]"
      using assms Some by (auto simp: f(1,2) o t wf_def)
    show "\<forall>k this. objs (update w h p) k = Some this \<longrightarrow> k < next_obj (update w h p)"
      using assms Some by (auto simp: f(3) o wf_def)
    show "\<forall>c x. x \<in> set (svg_defs (update w h p) c) \<longrightarrow> fnode x < next_node (update w h p)"
    proof (intro allI impI)
      fix c x assume "x \<in> set (svg_defs (update w h p) c)"
      from mem [OF this] show "fnode x < next_node (update w h p)"
      proof
        assume "x \<in> set (svg_defs w c) \<and> filterRef this \<noteq> Some (fnode x)"
        then have "fnode x < next_node w" using assms by (auto simp: wf_def)
        with f(4) show ?thesis by simp
      next
        assume "x = new_filter (next_node w) (ident this) (spread (options this) p) \<and> c = defs this"
        with f(4) show ?thesis by (simp add: new_filter_def)
      qed
    qed
    show "\<forall>c x. x \<in> set (svg_defs (update w h p) c) \<longrightarrow>
        (\<exists>k this. objs (update w h p) k = Some this \<and> filterRef this = Some (fnode x)
          \<and> ident this = fid x \<and> defs this = c)"
    proof (intro allI impI)
      fix c x assume "x \<in> set (svg_defs (update w h p) c)"
      from mem [OF this]
      show "\<exists>k this. objs (update w h p) k = Some this \<and> filterRef this = Some (fnode x)
          \<and> ident this = fid x \<and> defs this = c"
      proof
        assume a: "x \<in> set (svg_defs w c) \<and> filterRef this \<noteq> Some (fnode x)"
        with assms obtain k t where k: "objs w k = Some t" "filterRef t = Some (fnode x)"
          "ident t = fid x" "defs t = c"
          unfolding wf_def by blast
        with a Some have "k \<noteq> h" by auto
        with k show ?thesis by (auto simp: o)
      next
        assume "x = new_filter (next_node w) (ident this) (spread (options this) p) \<and> c = defs this"
        then show ?thesis by (auto simp: o t new_filter_def)
      qed
    qed
  qed
qed

lemma wf_constructible: "wf w \<Longrightarrow> constructible w"
  by (cases "body_svgs w") (simp_all add: wf_def constructible_def getElementById_def)

lemma wf_constructor:
  assumes "wf w"
  shows "wf (snd (constructor w t opts i))"
proof (cases "resolve w t")
  case (Inl err)
  then show ?thesis using assms by (simp add: constructor_def)
next
  case (Inr r)
  show ?thesis
  proof (cases r)
    case None
    with Inr show ?thesis using assms by (simp add: constructor_def)
  next
    case (Some e)
    define orig where "orig = \<lparr>orig_backdropFilter = backdropFilter (style (elems w e)),
            orig_WebkitBackdropFilter = WebkitBackdropFilter (style (elems w e)),
            orig_position = position (style (elems w e)),
            orig_overflow = overflow (style (elems w e))\<rparr>"
    define r where "r = inited w e (spread defaults opts) i orig"
    define w' where "w' = snd (constructor w t opts i)"
    define c where "c = snd (ensured w)"
    define w1 where "w1 = fst (ensured w)"
    define nf where "nf = new_filter (next_node w1) i (spread defaults opts)"
    have w': "w' = (fst r)\<lparr>objs := (objs w)(next_obj w \<mapsto> snd r), next_obj := Suc (next_obj w),
        instances := insert (next_obj w) (instances w)\<rparr>"
      using constructor_ok [of w t e opts i] Inr Some wf_constructible [OF assms]
      by (simp add: w'_def r_def orig_def)
    have b: "body_svgs w' = body_svgs w1" "body_svgs (fst r) = body_svgs w1"
      and d: "svg_defs w' = (svg_defs w1)(c := svg_defs w1 c @ [nf])"
      and t: "defs (snd r) = c" "filterRef (snd r) = Some (next_node w1)" "ident (snd r) = i"
      and n: "next_node w1 < next_node w'"
      and hd: "has_defs w' = has_defs w1" "has_body w' = has_body w"
      by (simp_all add: w' r_def init_svg init_this init_frame c_def w1_def nf_def)
    have e1: "body_svgs w1 = [c]" "next_node w \<le> next_node w1"
      "\<And>k x. x \<in> set (svg_defs w1 k) \<Longrightarrow> x \<in> set (svg_defs w k)"
      "has_defs w1 c"
      using assms
      by (auto simp: w1_def c_def ensure_cases wf_def split: if_splits)
    have live: "body_svgs w = [c]" if "instances w \<noteq> {}"
      using that assms by (auto simp: c_def ensure_cases wf_def)
    have mem: "x \<in> set (svg_defs w k) \<or> x = nf \<and> k = c" if "x \<in> set (svg_defs w' k)" for x k
      using that e1(3) by (auto simp: d split: if_splits)
    have fresh: "objs w (next_obj w) = None"
      using assms unfolding wf_def by (metis less_irrefl not_Some_eq)
    show ?thesis
      unfolding wf_def w'_def [symmetric]
    proof (intro conjI)
      show "has_body w'" using assms by (simp add: hd wf_def)
      show "\<forall>k\<in>set (body_svgs w'). has_defs w' k" by (simp add: b e1 hd)
      show "finite (instances w')" using assms by (simp add: w' wf_def)
      show "length (body_svgs w') = (if instances w' = {} then 0 else 1)"
        by (simp add: b e1 w')
      show "\<forall>k\<in>instances w'. \<exists>this. objs w' k = Some this \<and> body_svgs w' = [defs this]"
      proof
        fix k assume "k \<in> instances w'"
        then have "k = next_obj w \<or> k \<in> instances w" by (simp add: w')
        then show "\<exists>this. objs w' k = Some this \<and> body_svgs w' = [defs this]"
        proof
          assume "k = next_obj w"
          then show ?thesis by (simp add: w' b e1 t)
        next
          assume k: "k \<in> instances w"
          with assms obtain this where "objs w k = Some this" "body_svgs w = [defs this]"
            unfolding wf_def by blast
          moreover from k live have "body_svgs w = [c]" by auto
          moreover from k fresh calculation have "k \<noteq> next_obj w" by auto
          ultimately show ?thesis by (simp add: w' b e1)
        qed
      qed
      show "\<forall>k this. objs w' k = Some this \<longrightarrow> k < next_obj w'"
        using assms by (auto simp: w' wf_def less_Suc_eq)
      show "\<forall>k x. x \<in> set (svg_defs w' k) \<longrightarrow> fnode x < next_node w'"
      proof (intro allI impI)
        fix k x assume "x \<in> set (svg_defs w' k)"
        from mem [OF this] show "fnode x < next_node w'"
        proof
          assume "x \<in> set (svg_defs w k)"
          then have "fnode x < next_node w" using assms by (auto simp: wf_def)
          with e1(2) n show ?thesis by simp
        next
          assume "x = nf \<and> k = c"
          with n show ?thesis by (simp add: nf_def new_filter_def)
        qed
      qed
      show "\<forall>k x. x \<in> set (svg_defs w' k) \<longrightarrow>
        (\<exists>h this. objs w' h = Some this \<and> filterRef this = Some (fnode x)
          \<and> ident this = fid x \<and> defs this = k)"
      proof (intro allI impI)
        fix k x assume "x \<in> set (svg_defs w' k)"
        from mem [OF this]
        show "\<exists>h this. objs w' h = Some this \<and> filterRef this = Some (fnode x)
          \<and> ident this = fid x \<and> defs this = k"
        proof
          assume "x \<in> set (svg_defs w k)"
          with assms obtain h this where h: "objs w h = Some this" "filterRef this = Some (fnode x)"
            "ident this = fid x" "defs this = k"
            unfolding wf_def by blast
          with fresh have "h \<noteq> next_obj w" by auto
          with h show ?thesis by (auto simp: w')
        next
          assume "x = nf \<and> k = c"
          then show ?thesis by (auto simp: w' t nf_def new_filter_def)
        qed
      qed
    qed
  qed
qed

lemma wf_step: "wf w \<Longrightarrow> wf (step w x)"
  by (cases x) (simp_all add: wf_constructor wf_update wf_enable wf_disable wf_destroy)

lemma wf_run: "wf w \<Longrightarrow> wf (run w ops)"
  unfolding run_def by (induction ops arbitrary: w) (simp_all add: wf_step)

lemma wf_initial: "initial w \<Longrightarrow> wf w"
  by (simp add: initial_def wf_def)

section \<open>Tearing down twice\<close>


lemma remove_div_opt:
  "children (elems (case r of Some n \<Rightarrow> remove_div w n | None \<Rightarrow> w) k) =
     filter (kept r) (children (elems w k))"
  "style (elems (case r of Some n \<Rightarrow> remove_div w n | None \<Rightarrow> w) k) = style (elems w k)"
  "cascade (elems (case r of Some n \<Rightarrow> remove_div w n | None \<Rightarrow> w) k) = cascade (elems w k)"
  by (cases r; simp add: remove_div_def kept_def [abs_def])+

lemma release_elems:
  "elems (case getElementById w of Some c \<Rightarrow> w\<lparr>body_svgs := X c\<rparr> | None \<Rightarrow> w) = elems w"
  by (simp split: option.splits)

lemma remove_filter_opt:
  "elems (case r of Some n \<Rightarrow> remove_filter w n | None \<Rightarrow> w) = elems w"
  by (simp add: remove_filter_def split: option.splits)

lemma destroy_frame:
  "querySelector (destroy w h) = querySelector w"
  "isFirefox (destroy w h) = isFirefox w"
  "backdropFilterSupported (destroy w h) = backdropFilterSupported w"
  "css (destroy w h) = css w"
  "div_cascade (destroy w h) = div_cascade w"
  "world.more (destroy w h) = world.more w"
  by (simp_all add: destroy_def Let_def remove_div_def remove_filter_def
      split: option.splits)

lemma destroy_elems:
  assumes "objs w h = Some this"
  shows "children (elems (destroy w h) k) =
           filter (kept (firefoxBg this)) (filter (kept (overlayContainer this)) (children (elems w k)))"
    and "style (elems (destroy w h) k) =
           (if k = element this then restore (originalStyles this) (style (elems w k))
            else style (elems w k))"
    and "cascade (elems (destroy w h) k) = cascade (elems w k)"
proof -
  define w1 where "w1 = (case filterRef this of Some f \<Rightarrow> remove_filter w f | None \<Rightarrow> w)"
  define w2 where "w2 = (case overlayContainer this of Some n \<Rightarrow> remove_div w1 n | None \<Rightarrow> w1)"
  define w3 where "w3 = (case firefoxBg this of Some n \<Rightarrow> remove_div w2 n | None \<Rightarrow> w2)"
  define w4 where "w4 = w3\<lparr>elems := (elems w3)(element this := (elems w3 (element this))
      \<lparr>style := restore (originalStyles this) (style (elems w3 (element this)))\<rparr>)\<rparr>"
  define w5 where "w5 = w4\<lparr>instances := instances w4 - {h}\<rparr>"
  have "destroy w h =
      (if instances w5 = {}
       then (case getElementById w5 of
               Some c \<Rightarrow> w5\<lparr>body_svgs := removeAll c (body_svgs w5)\<rparr>
             | None \<Rightarrow> w5)
       else w5)"
    unfolding destroy_def Let_def w5_def w4_def w3_def w2_def w1_def
    by (simp only: assms option.case)
  then have "elems (destroy w h) = elems w5"
    by (simp add: release_elems)
  then have e: "elems (destroy w h) = elems w4"
    by (simp add: w5_def)
  have w1: "elems w1 = elems w"
    by (simp add: w1_def remove_filter_opt)
  show "children (elems (destroy w h) k) =
      filter (kept (firefoxBg this)) (filter (kept (overlayContainer this)) (children (elems w k)))"
    by (simp add: e w4_def w3_def w2_def remove_div_opt w1)
  show "style (elems (destroy w h) k) =
      (if k = element this then restore (originalStyles this) (style (elems w k))
       else style (elems w k))"
    by (simp add: e w4_def w3_def w2_def remove_div_opt w1)
  show "cascade (elems (destroy w h) k) = cascade (elems w k)"
    by (simp add: e w4_def w3_def w2_def remove_div_opt w1)
qed

lemma destroy_twice:
  assumes "length (body_svgs w) \<le> 1"
  shows "destroy (destroy w h) h = destroy w h"
proof (cases "objs w h")
  case None
  then show ?thesis by (simp add: destroy_def)
next
  case (Some this)
  have b: "body_svgs w = [] \<or> (\<exists>c. body_svgs w = [c])"
    using assms by (cases "body_svgs w") auto
  have o: "objs (destroy w h) h = Some this"
    using Some by (simp add: destroy_fields)
  note f1 = destroy_fields [OF Some] and f2 = destroy_fields [OF o]
  note e1 = destroy_elems [OF Some] and e2 = destroy_elems [OF o]
  have "elems (destroy (destroy w h) h) k = elems (destroy w h) k" for k
    by (rule element.equality) (auto simp: e2 e1 restore_def intro!: filter_cong)
  then have el: "elems (destroy (destroy w h) h) = elems (destroy w h)"
    by (rule ext)
  have sv: "svg_defs (destroy (destroy w h) h) = svg_defs (destroy w h)"
    by (rule ext) (simp add: f2 f1 remove_filter_def split: option.splits)
  have bs: "body_svgs (destroy (destroy w h) h) = body_svgs (destroy w h)"
    using b by (auto simp: f2 f1)
  show ?thesis
    by (rule world.equality) (simp_all add: el sv bs f2 f1 destroy_frame)
qed

section \<open>Facts about single operations and the sample page\<close>

lemma resolve_card: "resolve (page ff) (Selector ''.card'') = Inr (Some 0)"
  by (simp add: resolve_def page_def)

lemma resolve_navbar: "resolve (page ff) (Selector ''.navbar'') = Inr (Some 2)"
  by (simp add: resolve_def page_def)

lemma initial_page: "initial (page ff)"
  by (simp add: initial_def page_def)

lemma constructible_page: "constructible (page ff)"
  by (simp add: constructible_def getElementById_def page_def)

lemma update_position:
  assumes "objs w h = Some this"
  shows "position (style (elems (update w h p) (element this))) =
     (if computed_position (elems w (element this)) = ''static'' then ''relative''
      else position (style (elems w (element this))))"
proof -
  define this1 where "this1 = this\<lparr>options := spread (options this) p\<rparr>"
  define w1 where "w1 = (case filterRef this1 of Some f \<Rightarrow> remove_filter w f | None \<Rightarrow> w)"
  define r2 where "r2 = createFilter w1 this1"
  have u: "elems (update w h p) = elems (fst (applyStyles (fst r2) (snd r2)))"
    using assms by (simp add: update_def Let_def split_def r2_def w1_def this1_def)
  have e: "elems (fst r2) = elems w" "element (snd r2) = element this"
    by (simp_all add: r2_def createFilter_frame w1_def remove_filter_opt this1_def)
  show ?thesis
    using applyStyles_position [of "fst r2" "snd r2"] by (simp add: u e)
qed

lemma wf_instances_destroy:
  assumes "wf w"
  shows "instances (destroy w h) = instances w - {h}"
proof (cases "objs w h")
  case None
  with assms have "h \<notin> instances w" unfolding wf_def by fastforce
  with None show ?thesis by (simp add: destroy_def)
next
  case (Some this)
  then show ?thesis by (simp add: destroy_fields)
qed

lemma run_destroys:
  "wf w \<Longrightarrow> wf (run w (map Destroy hs)) \<and> instances (run w (map Destroy hs)) = instances w - set hs"
proof (induction hs arbitrary: w)
  case Nil
  then show ?case by (simp add: run_def)
next
  case (Cons h hs)
  from Cons.prems have "wf (destroy w h)" by (rule wf_destroy)
  from Cons.IH [OF this] Cons.prems show ?case
    by (auto simp: run_def wf_instances_destroy)
qed

lemma wf_container:
  assumes "wf w"
  shows "length (body_svgs w) = (if 0 < card (instances w) then 1 else 0)"
proof -
  from assms have "finite (instances w)" by (simp add: wf_def)
  then have "(0 < card (instances w)) = (instances w \<noteq> {})"
    by (simp add: card_gt_0_iff)
  with assms show ?thesis by (simp add: wf_def)
qed

lemma blur_stage:
  "stages_tagged (new_filter n i (spread o1 (no_options\<lparr>p_blurAmount := Value 10\<rparr>))) ''feGaussianBlur''
     = [[(''in'', S ''displacement''), (''stdDeviation'', N 10), (''result'', S ''blurred'')]]"
  by (simp add: stages_tagged_def new_filter_def filter_markup_def spread_def pick_def interp_def)

text \<open>
  After an update of a tracked object, the definitions in the document that bear its id
  are those that bore it before, without the object's current one, and the new one.
\<close>

lemma update_filters_with_id:
  assumes "wf w" and "h \<in> instances w" and "objs w h = Some this"
  shows "filters_with_id (update w h p) (ident this) =
           filter (\<lambda>f. filterRef this \<noteq> Some (fnode f)) (filters_with_id w (ident this))
           @ [new_filter (next_node w) (ident this) (spread (options this) p)]"
proof -
  from assms have b: "body_svgs w = [defs this]"
    unfolding wf_def by fastforce
  note f = update_fields [OF assms(3), of p]
  have "filter (\<lambda>f. fid f = ident this)
          (svg_defs (case filterRef this of Some f \<Rightarrow> remove_filter w f | None \<Rightarrow> w) (defs this))
        = filter (\<lambda>f. filterRef this \<noteq> Some (fnode f))
            (filter (\<lambda>f. fid f = ident this) (svg_defs w (defs this)))"
    by (cases "filterRef this") (auto simp: remove_filter_def intro: filter_cong)
  then show ?thesis
    by (simp add: filters_with_id_def document_filters_def f(1) b f(7) new_filter_def)
qed

text \<open>An id that no other object carries is borne by the object's own filter only.\<close>

lemma unique_id_owns:
  assumes "wf w" and "objs w h = Some this"
      and "\<forall>h' this'. objs w h' = Some this' \<longrightarrow> ident this' = ident this \<longrightarrow> h' = h"
  shows "\<forall>f \<in> set (filters_with_id w (ident this)). filterRef this = Some (fnode f)"
proof
  fix f assume "f \<in> set (filters_with_id w (ident this))"
  then obtain c where m: "f \<in> set (svg_defs w c)" and i: "fid f = ident this"
    by (auto simp: filters_with_id_def document_filters_def)
  from assms(1) m obtain h' this' where o: "objs w h' = Some this'"
    "filterRef this' = Some (fnode f)" "ident this' = fid f"
    unfolding wf_def by blast
  with i assms(3) have "h' = h" by simp
  with o assms(2) show "filterRef this = Some (fnode f)" by simp
qed

lemma has_class_promote [simp]: "has_class cl (promote_in w n c) = has_class cl c"
  by (simp add: has_class_def promote_in_def promote_div_def Let_def split: child.splits)

lemma promote_child_classes:
  "map (has_class cl) (children (elems (promote_child e w c) k)) =
     map (has_class cl) (children (elems w k))"
  by (simp add: promote_child_def promote_style_keeps o_def split: child.splits)

lemma promote_classes:
  "map (has_class cl) (children (elems (foldl (promote_child e) w cs) k)) =
     map (has_class cl) (children (elems w k))"
  by (induction cs arbitrary: w) (simp_all add: promote_child_classes)

lemma count_by_map: "length (filter P xs) = length (filter (\<lambda>b. b) (map P xs))"
  by (simp add: filter_map o_def)

lemma fallback_overlay_count:
  "overlay_count (fst (addFirefoxFallback w this)) k = overlay_count w k"
proof (cases "fallback w")
  case False
  then show ?thesis by (simp add: addFirefoxFallback_def fallback_def)
next
  case True
  then show ?thesis
    unfolding overlay_count_def
    by (subst (1 2) count_by_map)
       (simp add: addFirefoxFallback_def fallback_def Let_def promote_classes has_class_def)
qed

lemma applyStyles_overlay_count:
  "overlay_count (fst (applyStyles w this)) k = overlay_count w k"
  by (simp add: applyStyles_def Let_def fallback_overlay_count) (simp add: overlay_count_def)

lemma init_no_overlay:
  assumes "\<not> truthy (addOverlay opts)" and "\<not> truthy (addNoise opts)"
  shows "overlay_count (fst (inited w e opts i orig)) k = overlay_count w k"
    and "overlayContainer (snd (inited w e opts i orig)) = None"
  using assms
  by (simp_all add: init_unfold Let_def applyStyles_overlay_count applyStyles_this createFilter_frame)
     (simp add: overlay_count_def createFilter_frame ensure_frame)

lemma init_selectors:
  "querySelector (fst (inited w e opts i orig)) = querySelector w"
  by (simp add: init_unfold Let_def addOverlays_frame applyStyles_frame createFilter_frame
      ensure_frame)

lemma constructor_selectors:
  "querySelector (snd (constructor w t opts i)) = querySelector w"
proof (cases "resolve w t")
  case (Inl err)
  then show ?thesis by (simp add: constructor_def)
next
  case (Inr r)
  show ?thesis
  proof (cases r)
    case None
    with Inr show ?thesis by (simp add: constructor_def)
  next
    case (Some e)
    with Inr have r: "resolve w t = Inr (Some e)" by simp
    show ?thesis
    proof (cases "constructible w")
      case True
      then show ?thesis by (simp add: constructor_ok [OF r] init_selectors)
    next
      case False
      then show ?thesis by (simp add: constructor_fail [OF r])
    qed
  qed
qed

lemma constructor_tracks:
  assumes "resolve w t = Inr (Some e)" and "constructible w"
  shows "instances (snd (constructor w t opts i)) = insert (next_obj w) (instances w)"
    and "next_obj (snd (constructor w t opts i)) = Suc (next_obj w)"
    and "\<exists>this. objs (snd (constructor w t opts i)) (next_obj w) = Some this
           \<and> ident this = i \<and> element this = e"
    and "h \<noteq> next_obj w \<Longrightarrow> objs (snd (constructor w t opts i)) h = objs w h"
  by (simp_all add: constructor_ok [OF assms] init_this)

text \<open>Two constructions on the sample page, with ids \<open>i\<close> and \<open>j\<close>.\<close>

lemma sample_run:
  fixes ff :: bool and i j :: string
  defines "w \<equiv> run (page ff) [Construct (Selector ''.card'') no_options i,
                               Construct (Selector ''.navbar'') card_options j]"
  shows "instances w = {0, 1}"
    and "\<exists>a. objs w 0 = Some a \<and> ident a = i"
    and "\<exists>b. objs w 1 = Some b \<and> ident b = j"
    and "1 < h \<Longrightarrow> objs w h = None"
    and "querySelector w = querySelector (page ff)"
proof -
  define w1 where "w1 = snd (constructor (page ff) (Selector ''.card'') no_options i)"
  have w: "w = snd (constructor w1 (Selector ''.navbar'') card_options j)"
    by (simp add: w_def run_def w1_def)
  have q1: "querySelector w1 = querySelector (page ff)"
    by (simp add: w1_def constructor_selectors)
  then have r: "resolve w1 (Selector ''.navbar'') = Inr (Some 2)"
    using resolve_navbar [of ff] by (simp add: resolve_def)
  have "wf w1"
    unfolding w1_def by (rule wf_constructor) (rule wf_initial [OF initial_page])
  then have k: "constructible w1" by (rule wf_constructible)
  have p: "next_obj (page ff) = 0" "instances (page ff) = {}" "objs (page ff) = (\<lambda>h. None)"
    by (simp_all add: page_def)
  note c1 = constructor_tracks [OF resolve_card [of ff] constructible_page,
      where opts = no_options and i = i]
  note c2 = constructor_tracks [OF r k, where opts = card_options and i = j]
  show "instances w = {0, 1}"
    using c1(1,2) c2(1) by (auto simp: w p w1_def [symmetric])
  show "\<exists>a. objs w 0 = Some a \<and> ident a = i"
    using c1(2,3) c2(4) [of 0] by (auto simp: w p w1_def [symmetric])
  show "\<exists>b. objs w 1 = Some b \<and> ident b = j"
    using c1(2) c2(3) by (auto simp: w p w1_def [symmetric])
  show "objs w h = None" if "1 < h"
    using that c1(2) c1(4) [of h] c2(4) [of h] by (auto simp: w p w1_def [symmetric])
  show "querySelector w = querySelector (page ff)"
    by (simp add: w constructor_selectors q1)
qed

section \<open>The claims\<close>

text \<open>
  C1. When the target is a selector for which \<^verbatim>\<open>querySelector\<close> finds no element, or a
  null or undefined element reference, the constructor throws its invalid-element error
  (the spec's \<^verbatim>\<open>InvalidTargetError\<close>), and the world it leaves is the world it found: the
  container, the filter definitions and the tracked set are those of before, and no
  object is registered.
\<close>

theorem constructor_invalid_target:
  "t = ElementRef None \<or> (\<exists>s. t = Selector s \<and> querySelector w s = NoMatch) \<Longrightarrow>
     constructor w t opts i = (Inl InvalidElement, w)"
  by (auto simp: constructor_def resolve_def)

theorem constructor_invalid_target_witness:
  "querySelector (page False) ''.missing'' = NoMatch
   \<and> constructor (page False) (Selector ''.missing'') no_options ''chromatic-blur-1-a''
       = (Inl InvalidElement, page False)
   \<and> constructor (page False) (ElementRef None) no_options ''chromatic-blur-1-a''
       = (Inl InvalidElement, page False)"
proof -
  have q: "querySelector (page False) ''.missing'' = NoMatch"
    by (simp add: page_def)
  show ?thesis
    using q
      constructor_invalid_target [of "Selector ''.missing''" "page False" no_options "''chromatic-blur-1-a''"]
      constructor_invalid_target [of "ElementRef None" "page False" no_options "''chromatic-blur-1-a''"]
    by simp
qed




text \<open>
  C3. In every state that a sequence of constructions, updates, enables, disables and
  destroys reaches from an initial page, the number of containers in the document is one
  when at least one instance is tracked and zero otherwise. Destroying, in any order, a
  list of objects that covers the tracked ones leaves no container; destroying a list
  that leaves some tracked instance leaves exactly one.
\<close>

theorem container_present_iff_tracked:
  assumes "initial w0" and "w = run w0 ops"
  shows "finite (instances w)
       \<and> length (body_svgs w) = (if 0 < card (instances w) then 1 else 0)
       \<and> (instances w \<subseteq> set hs \<longrightarrow> body_svgs (run w (map Destroy hs)) = [])
       \<and> (\<not> instances w \<subseteq> set hs \<longrightarrow> length (body_svgs (run w (map Destroy hs))) = 1)"
proof -
  from assms have w: "wf w" by (simp add: wf_initial wf_run)
  from run_destroys [OF w, of hs]
  have d: "wf (run w (map Destroy hs))"
    "instances (run w (map Destroy hs)) = instances w - set hs" by simp_all
  from d(1) have "length (body_svgs (run w (map Destroy hs))) =
      (if instances w - set hs = {} then 0 else 1)"
    by (simp add: wf_def d(2))
  with w wf_container [OF w] show ?thesis
    by (auto simp: wf_def)
qed

theorem container_present_iff_tracked_witness:
  "initial (page False)
   \<and> instances (run (page False)
        [Construct (Selector ''.card'') no_options ''chromatic-blur-1-a'',
         Construct (Selector ''.navbar'') card_options ''chromatic-blur-2-b'']) = {0, 1}
   \<and> length (body_svgs (run (page False)
        [Construct (Selector ''.card'') no_options ''chromatic-blur-1-a'',
         Construct (Selector ''.navbar'') card_options ''chromatic-blur-2-b''])) = 1
   \<and> body_svgs (run (run (page False)
        [Construct (Selector ''.card'') no_options ''chromatic-blur-1-a'',
         Construct (Selector ''.navbar'') card_options ''chromatic-blur-2-b''])
        (map Destroy [1, 0])) = []
   \<and> length (body_svgs (run (run (page False)
        [Construct (Selector ''.card'') no_options ''chromatic-blur-1-a'',
         Construct (Selector ''.navbar'') card_options ''chromatic-blur-2-b''])
        (map Destroy [1]))) = 1"
proof -
  define w where "w = run (page False)
        [Construct (Selector ''.card'') no_options ''chromatic-blur-1-a'',
         Construct (Selector ''.navbar'') card_options ''chromatic-blur-2-b'']"
  have i: "instances w = {0, 1}"
    unfolding w_def by (rule sample_run)
  show ?thesis
    using container_present_iff_tracked [OF initial_page w_def, of "[1, 0]"]
      container_present_iff_tracked [OF initial_page w_def, of "[1]"]
    unfolding w_def [symmetric] by (simp add: i initial_page)
qed

text \<open>
  C4. In every state reached from an initial page, a second \<^verbatim>\<open>destroy()\<close> on the same
  object leaves the world (document, styles, filter definitions, tracked set) exactly as
  the first left it. \<open>destroy\<close> is a total function: there is no error result.
\<close>

theorem destroy_idempotent:
  assumes "initial w0" and "w = run w0 ops"
  shows "destroy (destroy w h) h = destroy w h"
proof -
  from assms have "wf w" by (simp add: wf_initial wf_run)
  then have "length (body_svgs w) \<le> 1" by (simp add: wf_def)
  then show ?thesis by (rule destroy_twice)
qed

theorem destroy_idempotent_witness:
  "initial (page True)
   \<and> destroy (destroy (run (page True)
        [Construct (Selector ''.card'') no_options ''chromatic-blur-1-a'',
         Construct (Selector ''.navbar'') card_options ''chromatic-blur-2-b'']) 0) 0
     = destroy (run (page True)
        [Construct (Selector ''.card'') no_options ''chromatic-blur-1-a'',
         Construct (Selector ''.navbar'') card_options ''chromatic-blur-2-b'']) 0"
  using destroy_idempotent [OF initial_page refl] by (simp add: initial_page)

text \<open>
  C5. Construction on an element followed at once by \<^verbatim>\<open>destroy()\<close> leaves the inline
  \<^verbatim>\<open>backdropFilter\<close>, \<^verbatim>\<open>WebkitBackdropFilter\<close>, \<^verbatim>\<open>position\<close> and \<^verbatim>\<open>overflow\<close> of
  the element equal to what they were before construction, an empty value included.
\<close>

theorem destroy_restores_tracked_styles:
  assumes "resolve w t = Inr (Some e)"
      and "constructor w t opts i = (Inr h, w1)"
  shows "backdropFilter (style (elems (destroy w1 h) e)) = backdropFilter (style (elems w e))
       \<and> WebkitBackdropFilter (style (elems (destroy w1 h) e))
           = WebkitBackdropFilter (style (elems w e))
       \<and> position (style (elems (destroy w1 h) e)) = position (style (elems w e))
       \<and> overflow (style (elems (destroy w1 h) e)) = overflow (style (elems w e))"
proof -
  define orig where "orig = \<lparr>orig_backdropFilter = backdropFilter (style (elems w e)),
            orig_WebkitBackdropFilter = WebkitBackdropFilter (style (elems w e)),
            orig_position = position (style (elems w e)),
            orig_overflow = overflow (style (elems w e))\<rparr>"
  define this where "this = snd (inited w e (spread defaults opts) i orig)"
  have k: "constructible w"
    using assms by (rule constructor_succeeded)
  from assms(2) constructor_ok [OF assms(1) k, of opts i]
  have h: "h = next_obj w" and w1: "objs w1 h = Some this"
    by (auto simp: this_def orig_def)
  have "element this = e" "originalStyles this = orig"
    by (simp_all add: this_def init_this)
  with destroy_style [OF w1] show ?thesis
    by (simp add: restore_def orig_def)
qed

theorem destroy_restores_tracked_styles_witness:
  "resolve (page True) (Selector ''.card'') = Inr (Some 0)
   \<and> fst (constructor (page True) (Selector ''.card'') no_options ''chromatic-blur-1-a'') = Inr 0
   \<and> position (style (elems (snd (constructor (page True) (Selector ''.card'') no_options
         ''chromatic-blur-1-a'')) 0)) = ''relative''
   \<and> position (style (elems (destroy (snd (constructor (page True) (Selector ''.card'') no_options
         ''chromatic-blur-1-a'')) 0) 0)) = []
   \<and> overflow (style (elems (destroy (snd (constructor (page True) (Selector ''.card'') no_options
         ''chromatic-blur-1-a'')) 0) 0)) = []
   \<and> backdropFilter (style (elems (destroy (snd (constructor (page True) (Selector ''.card'')
         no_options ''chromatic-blur-1-a'')) 0) 0)) = []
   \<and> WebkitBackdropFilter (style (elems (destroy (snd (constructor (page True) (Selector ''.card'')
         no_options ''chromatic-blur-1-a'')) 0) 0)) = []"
proof -
  define r where "r = constructor (page True) (Selector ''.card'') no_options ''chromatic-blur-1-a''"
  have f: "fst r = Inr 0"
    unfolding r_def
    by (simp add: constructor_ok [OF resolve_card constructible_page]) (simp add: page_def)
  then have c: "r = (Inr 0, snd r)"
    by (metis prod.collapse)
  have p: "position (style (elems (snd r) 0)) = ''relative''"
    unfolding r_def
    by (simp add: constructor_ok [OF resolve_card constructible_page] init_styles)
       (simp add: page_def computed_position_def unstyled_def plain_cascade_def)
  have s: "style (elems (page True) 0) = unstyled"
    by (simp add: page_def)
  show ?thesis
    using destroy_restores_tracked_styles [OF resolve_card c [unfolded r_def]] f p
    by (simp add: r_def [symmetric] s unstyled_def resolve_card)
qed

text \<open>
  C6, as the claim states it, fails when the generated id of a tracked instance is also
  the id of another one: after \<^verbatim>\<open>update({blurAmount: 10})\<close> the document holds two filter
  definitions with that id.
\<close>

theorem colliding_ids_two_definitions:
  "0 \<in> instances (run (page False)
        [Construct (Selector ''.card'') no_options ''chromatic-blur-1-a'',
         Construct (Selector ''.navbar'') card_options ''chromatic-blur-1-a''])
   \<and> map_option ident (objs (run (page False)
        [Construct (Selector ''.card'') no_options ''chromatic-blur-1-a'',
         Construct (Selector ''.navbar'') card_options ''chromatic-blur-1-a'']) 0)
       = Some ''chromatic-blur-1-a''
   \<and> length (filters_with_id (update (run (page False)
        [Construct (Selector ''.card'') no_options ''chromatic-blur-1-a'',
         Construct (Selector ''.navbar'') card_options ''chromatic-blur-1-a''])
        0 (no_options\<lparr>p_blurAmount := Value 10\<rparr>)) ''chromatic-blur-1-a'') = 2"
  by code_simp

text \<open>
  C6, amended. In a state reached from an initial page, let an instance be tracked. If
  every filter definition in the document that bears its id is the instance's own current
  one (as it is when no other object carries the id), then after
  \<^verbatim>\<open>update({blurAmount: 10})\<close> the filter definitions in the document that bear its id are
  exactly one node, and the stages of that node tagged \<^verbatim>\<open>feGaussianBlur\<close> are exactly
  one, with standard deviation 10. If some other definition bears the id, there are at
  least two after the update.
\<close>

theorem update_one_definition_iff_own:
  assumes "initial w0" and "w = run w0 ops"
      and "h \<in> instances w" and "objs w h = Some this"
  shows "((\<forall>f \<in> set (filters_with_id w (ident this)). filterRef this = Some (fnode f)) \<longrightarrow>
            (\<exists>f. filters_with_id (update w h (no_options\<lparr>p_blurAmount := Value 10\<rparr>)) (ident this)
                   = [f]
               \<and> stages_tagged f ''feGaussianBlur''
                   = [[(''in'', S ''displacement''), (''stdDeviation'', N 10),
                       (''result'', S ''blurred'')]]))
       \<and> (\<not> (\<forall>f \<in> set (filters_with_id w (ident this)). filterRef this = Some (fnode f)) \<longrightarrow>
            1 < length (filters_with_id (update w h (no_options\<lparr>p_blurAmount := Value 10\<rparr>))
                  (ident this)))"
proof -
  define p where "p = no_options\<lparr>p_blurAmount := Value 10\<rparr>"
  define nf where "nf = new_filter (next_node w) (ident this) (spread (options this) p)"
  define others where "others =
    filter (\<lambda>f. filterRef this \<noteq> Some (fnode f)) (filters_with_id w (ident this))"
  from assms(1,2) have w: "wf w" by (simp add: wf_initial wf_run)
  have u: "filters_with_id (update w h p) (ident this) = others @ [nf]"
    unfolding others_def nf_def by (rule update_filters_with_id [OF w assms(3,4)])
  have s: "stages_tagged nf ''feGaussianBlur''
      = [[(''in'', S ''displacement''), (''stdDeviation'', N 10), (''result'', S ''blurred'')]]"
    by (simp add: nf_def p_def blur_stage)
  have e: "(others = []) =
      (\<forall>f \<in> set (filters_with_id w (ident this)). filterRef this = Some (fnode f))"
    by (simp add: others_def filter_empty_conv)
  have "others \<noteq> [] \<Longrightarrow> 1 < length (others @ [nf])"
    by (cases others) simp_all
  with u s e show ?thesis
    unfolding p_def [symmetric] by auto
qed

theorem update_one_definition_iff_own_witness:
  "initial (page False)
   \<and> 0 \<in> instances (run (page False)
        [Construct (Selector ''.card'') no_options ''chromatic-blur-1-a'',
         Construct (Selector ''.navbar'') card_options ''chromatic-blur-2-b''])
   \<and> (\<exists>f. filters_with_id (update (run (page False)
                [Construct (Selector ''.card'') no_options ''chromatic-blur-1-a'',
                 Construct (Selector ''.navbar'') card_options ''chromatic-blur-2-b''])
                0 (no_options\<lparr>p_blurAmount := Value 10\<rparr>)) ''chromatic-blur-1-a'' = [f]
         \<and> stages_tagged f ''feGaussianBlur''
             = [[(''in'', S ''displacement''), (''stdDeviation'', N 10), (''result'', S ''blurred'')]])
   \<and> 1 < length (filters_with_id (update (run (page False)
                [Construct (Selector ''.card'') no_options ''chromatic-blur-1-a'',
                 Construct (Selector ''.navbar'') card_options ''chromatic-blur-1-a''])
                0 (no_options\<lparr>p_blurAmount := Value 10\<rparr>)) ''chromatic-blur-1-a'')"
proof -
  define w where "w = run (page False)
        [Construct (Selector ''.card'') no_options ''chromatic-blur-1-a'',
         Construct (Selector ''.navbar'') card_options ''chromatic-blur-2-b'']"
  define v where "v = run (page False)
        [Construct (Selector ''.card'') no_options ''chromatic-blur-1-a'',
         Construct (Selector ''.navbar'') card_options ''chromatic-blur-1-a'']"
  have i: "instances w = {0, 1}"
    unfolding w_def by (rule sample_run)
  from sample_run(2) [of False "''chromatic-blur-1-a''" "''chromatic-blur-2-b''"]
  obtain a where a: "objs w 0 = Some a" and d: "ident a = ''chromatic-blur-1-a''"
    unfolding w_def by blast
  from sample_run(3) [of False "''chromatic-blur-1-a''" "''chromatic-blur-2-b''"]
  obtain b where b: "objs w 1 = Some b" and e: "ident b = ''chromatic-blur-2-b''"
    unfolding w_def by blast
  have n: "objs w k = None" if "1 < k" for k
    using that unfolding w_def by (rule sample_run)
  have h: "0 \<in> instances w" by (simp add: i)
  have u: "\<forall>h' this'. objs w h' = Some this' \<longrightarrow> ident this' = ident a \<longrightarrow> h' = 0"
  proof (intro allI impI)
    fix h' this' assume s: "objs w h' = Some this'" and t: "ident this' = ident a"
    have "h' = 0 \<or> h' = 1 \<or> 1 < h'" by auto
    with s t n [of h'] b d e show "h' = 0" by auto
  qed
  have "wf w"
    unfolding w_def by (rule wf_run) (rule wf_initial [OF initial_page])
  then have own: "\<forall>f \<in> set (filters_with_id w (ident a)). filterRef a = Some (fnode f)"
    using a u by (rule unique_id_owns)
  have j: "instances v = {0, 1}"
    unfolding v_def by (rule sample_run)
  from sample_run(2) [of False "''chromatic-blur-1-a''" "''chromatic-blur-1-a''"]
  obtain c where c: "objs v 0 = Some c" and g: "ident c = ''chromatic-blur-1-a''"
    unfolding v_def by blast
  have k: "0 \<in> instances v" by (simp add: j)
  have "map fnode (filters_with_id v ''chromatic-blur-1-a'') = [1, 3]"
    "map_option filterRef (objs v 0) = Some (Some 1)"
    unfolding v_def by code_simp+
  then have other: "\<not> (\<forall>f \<in> set (filters_with_id v (ident c)). filterRef c = Some (fnode f))"
    by (auto simp: c g)
  show ?thesis
    using update_one_definition_iff_own [OF initial_page w_def h a] own
      update_one_definition_iff_own [OF initial_page v_def k c] other h
    unfolding w_def [symmetric] v_def [symmetric] by (simp add: d g initial_page)
qed

text \<open>
  C7, at a failing input. In an environment that takes the fallback path, construction
  puts one fallback node into the element; one \<^verbatim>\<open>update\<close>, here with an empty
  configuration, puts a second one in, and \<^verbatim>\<open>destroy()\<close> then removes only the one the
  object still refers to. The overlay container is counted once throughout.
\<close>

theorem update_adds_fallback_node:
  "isFirefox (page True)
   \<and> fallback_count (snd (constructor (page True) (Selector ''.card'') no_options
        ''chromatic-blur-1-a'')) 0 = 1
   \<and> fallback_count (update (snd (constructor (page True) (Selector ''.card'') no_options
        ''chromatic-blur-1-a'')) 0 no_options) 0 = 2
   \<and> overlay_count (update (snd (constructor (page True) (Selector ''.card'') no_options
        ''chromatic-blur-1-a'')) 0 no_options) 0 = 1
   \<and> fallback_count (destroy (update (snd (constructor (page True) (Selector ''.card'') no_options
        ''chromatic-blur-1-a'')) 0 no_options) 0) 0 = 1"
  by code_simp

text \<open>
  C8. In a state reached from an initial page where \<^verbatim>\<open>.card\<close> selects an element,
  constructing with that selector and the configuration \<open>card_options\<close> returns an object
  whose filter node is in the document exactly once; its two offset stages carry 8 (red)
  and -8 (blue), its blur stage 5, its turbulence stage frequency 0.001 and its
  displacement stage scale 50. The object has no overlay container and the element has as
  many overlay children as before.
\<close>

theorem card_scenario:
  assumes "initial w0" and "w = run w0 ops"
      and "querySelector w ''.card'' = Matches e"
  shows "\<exists>h w1 this f.
           constructor w (Selector ''.card'') card_options i = (Inr h, w1)
         \<and> objs w1 h = Some this
         \<and> filter (\<lambda>f. filterRef this = Some (fnode f)) (document_filters w1) = [f]
         \<and> stages_tagged f ''feOffset''
             = [[(''in'', S ''SourceGraphic''), (''dx'', N 8), (''dy'', S ''0''),
                 (''result'', S ''redOffset'')],
                [(''in'', S ''SourceGraphic''), (''dx'', N (- 8)), (''dy'', S ''0''),
                 (''result'', S ''blueOffset'')]]
         \<and> stages_tagged f ''feGaussianBlur''
             = [[(''in'', S ''displacement''), (''stdDeviation'', N 5), (''result'', S ''blurred'')]]
         \<and> stages_tagged f ''feTurbulence''
             = [[(''baseFrequency'', N (1 / 1000)), (''numOctaves'', S ''1''),
                 (''type'', S ''turbulence''), (''result'', S ''turbulence'')]]
         \<and> stages_tagged f ''feDisplacementMap''
             = [[(''in'', S ''colorSplit''), (''in2'', S ''turbulence''), (''scale'', N 50),
                 (''result'', S ''displacement'')]]
         \<and> overlayContainer this = None
         \<and> overlay_count w1 e = overlay_count w e"
proof -
  define opts where "opts = spread defaults card_options"
  define orig where "orig = \<lparr>orig_backdropFilter = backdropFilter (style (elems w e)),
            orig_WebkitBackdropFilter = WebkitBackdropFilter (style (elems w e)),
            orig_position = position (style (elems w e)),
            orig_overflow = overflow (style (elems w e))\<rparr>"
  define r where "r = inited w e opts i orig"
  define c where "c = snd (ensured w)"
  define w1 where "w1 = fst (ensured w)"
  define nf where "nf = new_filter (next_node w1) i opts"
  define w' where "w' = (fst r)\<lparr>objs := (objs w)(next_obj w \<mapsto> snd r), next_obj := Suc (next_obj w),
        instances := insert (next_obj w) (instances w)\<rparr>"
  from assms(1,2) have w: "wf w" by (simp add: wf_initial wf_run)
  have res: "resolve w (Selector ''.card'') = Inr (Some e)"
    using assms(3) by (simp add: resolve_def)
  have con: "constructor w (Selector ''.card'') card_options i = (Inr (next_obj w), w')"
    using constructor_ok [OF res wf_constructible [OF w], of card_options i]
    by (simp add: w'_def r_def orig_def opts_def)
  have o: "\<not> truthy (addOverlay opts)" "\<not> truthy (addNoise opts)"
    by (simp_all add: opts_def spread_def card_options_def pick_def truthy_def)
  have b: "body_svgs w' = [c]"
    using w by (auto simp: w'_def r_def init_svg c_def ensure_cases wf_def split: if_splits)
  have d: "svg_defs w' c = svg_defs w1 c @ [nf]"
    by (simp add: w'_def r_def init_svg c_def w1_def nf_def)
  have t: "filterRef (snd r) = Some (next_node w1)"
    by (simp add: r_def init_svg w1_def)
  have "next_node w1 \<noteq> fnode x" if "x \<in> set (svg_defs w1 c)" for x
  proof -
    from that have "x \<in> set (svg_defs w c)"
      by (auto simp: w1_def ensure_cases split: if_splits)
    with w have "fnode x < next_node w" by (auto simp: wf_def)
    moreover have "next_node w \<le> next_node w1" by (simp add: w1_def ensure_cases)
    ultimately show ?thesis by simp
  qed
  then have "filter (\<lambda>f. filterRef (snd r) = Some (fnode f)) (svg_defs w1 c) = []"
    by (simp add: t filter_empty_conv)
  then have one: "filter (\<lambda>f. filterRef (snd r) = Some (fnode f)) (document_filters w') = [nf]"
    by (simp add: document_filters_def b d) (simp add: t nf_def new_filter_def)
  have st: "fstages nf = filter_markup opts"
    by (simp add: nf_def new_filter_def)
  have v: "redOffset opts = Some 8" "blueOffset opts = Some (- 8)" "blurAmount opts = Some 5"
    "turbulenceFrequency opts = Some (1 / 1000)" "displacementScale opts = Some 50"
    by (simp_all add: opts_def spread_def card_options_def defaults_def pick_def)
  have ov: "overlayContainer (snd r) = None" "overlay_count w' e = overlay_count w e"
    using init_no_overlay(1) [OF o, where w = w and e = e and i = i and orig = orig and k = e]
      init_no_overlay(2) [OF o, where w = w and e = e and i = i and orig = orig]
    by (simp_all add: r_def overlay_count_def w'_def)
  show ?thesis
    using one ov
    by (simp add: con w'_def [symmetric])
       (simp add: w'_def stages_tagged_def st filter_markup_def v interp_def)
qed

theorem card_scenario_witness:
  "initial (page True)
   \<and> querySelector (run (page True) [Construct (Selector ''.navbar'') no_options ''chromatic-blur-1-a''])
       ''.card'' = Matches 0
   \<and> (\<exists>h w1 this f.
         constructor (run (page True) [Construct (Selector ''.navbar'') no_options ''chromatic-blur-1-a''])
           (Selector ''.card'') card_options ''chromatic-blur-2-b'' = (Inr h, w1)
       \<and> objs w1 h = Some this
       \<and> filter (\<lambda>f. filterRef this = Some (fnode f)) (document_filters w1) = [f]
       \<and> stages_tagged f ''feOffset''
           = [[(''in'', S ''SourceGraphic''), (''dx'', N 8), (''dy'', S ''0''),
               (''result'', S ''redOffset'')],
              [(''in'', S ''SourceGraphic''), (''dx'', N (- 8)), (''dy'', S ''0''),
               (''result'', S ''blueOffset'')]]
       \<and> stages_tagged f ''feGaussianBlur''
           = [[(''in'', S ''displacement''), (''stdDeviation'', N 5), (''result'', S ''blurred'')]]
       \<and> overlayContainer this = None
       \<and> overlay_count w1 0 = 0)"
proof -
  define w where "w = run (page True) [Construct (Selector ''.navbar'') no_options ''chromatic-blur-1-a'']"
  have q: "querySelector w ''.card'' = Matches 0"
    by (simp add: w_def run_def constructor_selectors) (simp add: page_def)
  have "children (elems w 0) = [PageChild 1]"
    unfolding w_def by code_simp
  then have c: "overlay_count w 0 = 0"
    by (simp add: overlay_count_def has_class_def)
  from card_scenario [OF initial_page w_def q, of "''chromatic-blur-2-b''"]
  obtain h w1 this f where
    "constructor w (Selector ''.card'') card_options ''chromatic-blur-2-b'' = (Inr h, w1)"
    "objs w1 h = Some this"
    "filter (\<lambda>f. filterRef this = Some (fnode f)) (document_filters w1) = [f]"
    "stages_tagged f ''feOffset''
           = [[(''in'', S ''SourceGraphic''), (''dx'', N 8), (''dy'', S ''0''),
               (''result'', S ''redOffset'')],
              [(''in'', S ''SourceGraphic''), (''dx'', N (- 8)), (''dy'', S ''0''),
               (''result'', S ''blueOffset'')]]"
    "stages_tagged f ''feGaussianBlur''
           = [[(''in'', S ''displacement''), (''stdDeviation'', N 5), (''result'', S ''blurred'')]]"
    "overlayContainer this = None"
    "overlay_count w1 0 = overlay_count w 0"
    by blast
  then show ?thesis
    unfolding w_def [symmetric] using q c initial_page by auto
qed

text \<open>
  C9. Whenever \<^verbatim>\<open>_applyStyles\<close> runs, the inline position of the element becomes
  \<^verbatim>\<open>relative\<close> when its computed position, as the engine's cascade gives it at that
  moment, is \<^verbatim>\<open>static\<close>, and otherwise keeps the value it has, whatever that inline
  value is. \<^verbatim>\<open>_applyStyles\<close> runs once in a construction that succeeds and once in every
  \<^verbatim>\<open>update\<close>, nothing before it in either touches the element, and nothing after it
  touches the position: so the same holds of the construction and of the update as a whole.
\<close>

theorem position_set_iff_static:
  "position (style (elems (fst (applyStyles w this)) (element this))) =
     (if computed_position (elems w (element this)) = ''static'' then ''relative''
      else position (style (elems w (element this))))
   \<and> (resolve w t = Inr (Some e) \<and> constructor w t opts i = (Inr k, w') \<longrightarrow>
      position (style (elems w' e)) =
        (if computed_position (elems w e) = ''static'' then ''relative''
         else position (style (elems w e))))
   \<and> (objs w h = Some this \<longrightarrow>
      position (style (elems (update w h p) (element this))) =
        (if computed_position (elems w (element this)) = ''static'' then ''relative''
         else position (style (elems w (element this)))))"
proof (intro conjI impI)
  show "position (style (elems (fst (applyStyles w this)) (element this))) =
     (if computed_position (elems w (element this)) = ''static'' then ''relative''
      else position (style (elems w (element this))))"
    by (rule applyStyles_position)
next
  assume a: "resolve w t = Inr (Some e) \<and> constructor w t opts i = (Inr k, w')"
  then have c: "constructible w"
    using constructor_succeeded by blast
  from a constructor_ok [of w t e opts i] c
  show "position (style (elems w' e)) =
        (if computed_position (elems w e) = ''static'' then ''relative''
         else position (style (elems w e)))"
    by (auto simp: init_styles)
next
  assume "objs w h = Some this"
  then show "position (style (elems (update w h p) (element this))) =
        (if computed_position (elems w (element this)) = ''static'' then ''relative''
         else position (style (elems w (element this))))"
    by (rule update_position)
qed

theorem position_set_iff_static_witness:
  "resolve (page True) (Selector ''.card'') = Inr (Some 0)
   \<and> fst (constructor (page True) (Selector ''.card'') no_options ''chromatic-blur-1-a'') = Inr 0
   \<and> position (style (elems (page True) 0)) = []
   \<and> computed_position (elems (page True) 0) = ''static''
   \<and> position (style (elems (snd (constructor (page True) (Selector ''.card'') no_options
         ''chromatic-blur-1-a'')) 0)) = ''relative''
   \<and> resolve pinned (Selector ''.navbar'') = Inr (Some 2)
   \<and> fst (constructor pinned (Selector ''.navbar'') no_options ''chromatic-blur-1-a'') = Inr 0
   \<and> position (style (elems pinned 2)) = ''static''
   \<and> computed_position (elems pinned 2) = ''fixed''
   \<and> position (style (elems (snd (constructor pinned (Selector ''.navbar'') no_options
         ''chromatic-blur-1-a'')) 2)) = ''static''
   \<and> map_option element (objs (snd (constructor pinned (Selector ''.navbar'') no_options
         ''chromatic-blur-1-a'')) 0) = Some 2
   \<and> position (style (elems (update (snd (constructor pinned (Selector ''.navbar'') no_options
         ''chromatic-blur-1-a'')) 0 no_options) 2)) = ''static''"
proof -
  define r where "r = constructor (page True) (Selector ''.card'') no_options ''chromatic-blur-1-a''"
  define s where "s = constructor pinned (Selector ''.navbar'') no_options ''chromatic-blur-1-a''"
  define this where "this = the (objs (snd s) 0)"
  have rp: "resolve pinned (Selector ''.navbar'') = Inr (Some 2)"
    by (simp add: resolve_def pinned_def page_def)
  have kp: "constructible pinned"
    by (simp add: constructible_def getElementById_def pinned_def page_def)
  have np: "next_obj pinned = 0" "next_obj (page True) = 0"
    by (simp_all add: pinned_def page_def)
  have fr: "fst r = Inr 0"
    unfolding r_def by (simp add: constructor_ok [OF resolve_card constructible_page] np)
  then have cr: "constructor (page True) (Selector ''.card'') no_options ''chromatic-blur-1-a''
      = (Inr 0, snd r)"
    unfolding r_def by (metis prod.collapse)
  have fs: "fst s = Inr 0"
    unfolding s_def by (simp add: constructor_ok [OF rp kp] np)
  then have cs: "constructor pinned (Selector ''.navbar'') no_options ''chromatic-blur-1-a''
      = (Inr 0, snd s)"
    unfolding s_def by (metis prod.collapse)
  have p0: "position (style (elems (page True) 0)) = []"
    and c0: "computed_position (elems (page True) 0) = ''static''"
    by (simp_all add: page_def computed_position_def unstyled_def plain_cascade_def)
  have p2: "position (style (elems pinned 2)) = ''static''"
    and c2: "computed_position (elems pinned 2) = ''fixed''"
    by (simp_all add: pinned_def computed_position_def unstyled_def)
  have o: "objs (snd s) 0 = Some this" and e: "element this = 2"
    unfolding this_def s_def
    by (simp_all add: constructor_ok [OF rp kp] init_this np)
  have a: "position (style (elems (snd r) 0)) = ''relative''"
    using position_set_iff_static [where w = "page True" and t = "Selector ''.card''" and e = 0
        and opts = no_options and i = "''chromatic-blur-1-a''" and k = 0 and w' = "snd r"] cr
    by (simp add: resolve_card c0)
  have b: "position (style (elems (snd s) 2)) = ''static''"
    using position_set_iff_static [where w = pinned and t = "Selector ''.navbar''" and e = 2
        and opts = no_options and i = "''chromatic-blur-1-a''" and k = 0 and w' = "snd s"] cs
    by (simp add: rp c2 p2)
  have "cascade (elems (snd s) 2) = cascade (elems pinned 2)"
    unfolding s_def
    by (simp add: constructor_ok [OF rp kp] init_unfold Let_def addOverlays_frame
        applyStyles_def fallback_styles createFilter_frame ensure_frame)
  then have c3: "computed_position (elems (snd s) 2) = ''fixed''"
    using c2 b p2 by (simp add: computed_position_def)
  have d: "position (style (elems (update (snd s) 0 no_options) 2)) = ''static''"
    using position_set_iff_static [where w = "snd s" and h = 0 and this = this
        and p = no_options] o e
    by (simp add: c3 b)
  show ?thesis
    using a b d fr fs o e
    by (simp add: r_def [symmetric] s_def [symmetric] resolve_card rp p0 c0 p2 c2)
qed

text \<open>
  C10, as the claim states it, fails for a border colour that the engine does not parse:
  the assignment to \<^verbatim>\<open>boxShadow\<close> at construction is ignored, and after construction
  and \<^verbatim>\<open>destroy()\<close> the element has the box shadow it had before construction.
\<close>

theorem unparsed_shadow_keeps_old_value:
  "fst (constructor (page False) (Selector ''.navbar'')
         (no_options\<lparr>p_borderColor := Value ''notacolor''\<rparr>) ''chromatic-blur-1-a'') = Inr 0
   \<and> boxShadow (style (elems (page False) 2)) = ''none''
   \<and> boxShadow (style (elems (snd (constructor (page False) (Selector ''.navbar'')
         (no_options\<lparr>p_borderColor := Value ''notacolor''\<rparr>) ''chromatic-blur-1-a'')) 2)) = ''none''
   \<and> boxShadow (style (elems (destroy (snd (constructor (page False) (Selector ''.navbar'')
         (no_options\<lparr>p_borderColor := Value ''notacolor''\<rparr>) ''chromatic-blur-1-a'')) 0) 2))
       = ''none''"
proof -
  define r where "r = constructor (page False) (Selector ''.navbar'')
         (no_options\<lparr>p_borderColor := Value ''notacolor''\<rparr>) ''chromatic-blur-1-a''"
  define this where "this = the (objs (snd r) 0)"
  have n: "next_obj (page False) = 0" by (simp add: page_def)
  have f: "fst r = Inr 0"
    unfolding r_def by (simp add: constructor_ok [OF resolve_navbar constructible_page] n)
  have o: "objs (snd r) 0 = Some this" and e: "element this = 2"
    unfolding this_def r_def
    by (simp_all add: constructor_ok [OF resolve_navbar constructible_page] init_this n)
  have b: "borderColor (spread defaults (no_options\<lparr>p_borderColor := Value ''notacolor''\<rparr>))
      = Some ''notacolor''"
    by (simp add: spread_def pick_def no_options_def)
  have p: "boxShadow (style (elems (page False) 2)) = ''none''"
    by (simp add: page_def unstyled_def)
  have x: "css (page False) ''boxShadow'' (inset_shadow ''notacolor'') = None"
    by (simp add: page_def sample_css_def inset_shadow_def fallback_shadow_def)
  have fb: "\<not> fallback (page False)"
    by (simp add: fallback_def page_def)
  have s: "boxShadow (style (elems (snd r) 2)) = ''none''"
    unfolding r_def
    by (simp add: constructor_ok [OF resolve_navbar constructible_page] init_styles
        shadow_after_def assign_def b text_of_def x fb p)
  from destroy_style [OF o] have "boxShadow (style (elems (destroy (snd r) 0) 2)) = ''none''"
    by (simp add: e restore_def s)
  with f p s show ?thesis
    by (simp add: r_def [symmetric])
qed

text \<open>
  C10, amended. After a construction that succeeds, followed by \<^verbatim>\<open>destroy()\<close>, the inline
  \<^verbatim>\<open>boxShadow\<close> and \<^verbatim>\<open>backgroundColor\<close> of the element are what construction left
  there: \<^verbatim>\<open>destroy()\<close> restores neither. For \<^verbatim>\<open>boxShadow\<close> that is what the declaration
  holds after the assignments of the inset-border text and, in fallback mode, of the
  fallback text; when the engine accepts the last of these texts, it is its stored
  form, whatever the value before construction. In fallback mode the
  \<^verbatim>\<open>backgroundColor\<close> is what the declaration holds after the assignment of the
  substitute colour.
\<close>

theorem destroy_keeps_shadow_and_background:
  assumes "resolve w t = Inr (Some e)"
      and "constructor w t opts i = (Inr h, w1)"
  shows "boxShadow (style (elems (destroy w1 h) e)) = boxShadow (style (elems w1 e))
       \<and> boxShadow (style (elems w1 e))
           = shadow_after w (spread defaults opts) (boxShadow (style (elems w e)))
       \<and> (\<not> fallback w \<and> css w ''boxShadow''
              (inset_shadow (text_of (borderColor (spread defaults opts)))) = Some s
            \<longrightarrow> boxShadow (style (elems (destroy w1 h) e)) = s)
       \<and> (fallback w \<and> css w ''boxShadow''
              (fallback_shadow (text_of (borderColor (spread defaults opts)))) = Some s
            \<longrightarrow> boxShadow (style (elems (destroy w1 h) e)) = s)
       \<and> backgroundColor (style (elems (destroy w1 h) e)) = backgroundColor (style (elems w1 e))
       \<and> (fallback w \<longrightarrow>
            backgroundColor (style (elems w1 e))
              = assign w ''backgroundColor'' ''rgba(255, 255, 255, 0.85)''
                  (backgroundColor (style (elems w e))))"
proof -
  define orig where "orig = \<lparr>orig_backdropFilter = backdropFilter (style (elems w e)),
            orig_WebkitBackdropFilter = WebkitBackdropFilter (style (elems w e)),
            orig_position = position (style (elems w e)),
            orig_overflow = overflow (style (elems w e))\<rparr>"
  define this where "this = snd (inited w e (spread defaults opts) i orig)"
  have k: "constructible w"
    using assms by (rule constructor_succeeded)
  from assms(2) constructor_ok [OF assms(1) k, of opts i]
  have w1: "objs w1 h = Some this"
    and el: "elems w1 = elems (fst (inited w e (spread defaults opts) i orig))"
    by (auto simp: this_def orig_def)
  have t: "element this = e"
    by (simp add: this_def init_this)
  have d: "boxShadow (style (elems (destroy w1 h) e)) = boxShadow (style (elems w1 e))"
    "backgroundColor (style (elems (destroy w1 h) e)) = backgroundColor (style (elems w1 e))"
    using destroy_style [OF w1] by (simp_all add: t restore_def)
  have b: "boxShadow (style (elems w1 e))
      = shadow_after w (spread defaults opts) (boxShadow (style (elems w e)))"
    by (simp add: el init_styles)
  have g: "fallback w \<longrightarrow> backgroundColor (style (elems w1 e))
      = assign w ''backgroundColor'' ''rgba(255, 255, 255, 0.85)''
          (backgroundColor (style (elems w e)))"
    by (simp add: el init_styles)
  from d b g show ?thesis
    by (auto simp: shadow_after_def assign_def Let_def)
qed

theorem destroy_keeps_shadow_and_background_witness:
  "resolve (page True) (Selector ''.navbar'') = Inr (Some 2)
   \<and> fst (constructor (page True) (Selector ''.navbar'') no_options ''chromatic-blur-1-a'') = Inr 0
   \<and> fallback (page True)
   \<and> css (page True) ''boxShadow'' (fallback_shadow ''rgba(156, 156, 156, 0.2)'')
       = Some stored_fallback
   \<and> boxShadow (style (elems (page True) 2)) = ''none''
   \<and> backgroundColor (style (elems (page True) 2)) = []
   \<and> boxShadow (style (elems (destroy (snd (constructor (page True) (Selector ''.navbar'')
        no_options ''chromatic-blur-1-a'')) 0) 2)) = stored_fallback
   \<and> backgroundColor (style (elems (destroy (snd (constructor (page True) (Selector ''.navbar'')
        no_options ''chromatic-blur-1-a'')) 0) 2)) = ''rgba(255, 255, 255, 0.85)''
   \<and> resolve (page False) (Selector ''.navbar'') = Inr (Some 2)
   \<and> fst (constructor (page False) (Selector ''.navbar'') no_options ''chromatic-blur-1-a'') = Inr 0
   \<and> \<not> fallback (page False)
   \<and> css (page False) ''boxShadow'' (inset_shadow ''rgba(156, 156, 156, 0.2)'')
       = Some stored_inset
   \<and> boxShadow (style (elems (destroy (snd (constructor (page False) (Selector ''.navbar'')
        no_options ''chromatic-blur-1-a'')) 0) 2)) = stored_inset"
proof -
  define r where "r = constructor (page True) (Selector ''.navbar'') no_options ''chromatic-blur-1-a''"
  define q where "q = constructor (page False) (Selector ''.navbar'') no_options ''chromatic-blur-1-a''"
  have n: "next_obj (page ff) = 0" for ff by (simp add: page_def)
  have f: "fst r = Inr 0"
    unfolding r_def by (simp add: constructor_ok [OF resolve_navbar constructible_page] n)
  then have c: "constructor (page True) (Selector ''.navbar'') no_options ''chromatic-blur-1-a''
      = (Inr 0, snd r)"
    unfolding r_def by (metis prod.collapse)
  have f': "fst q = Inr 0"
    unfolding q_def by (simp add: constructor_ok [OF resolve_navbar constructible_page] n)
  then have c': "constructor (page False) (Selector ''.navbar'') no_options ''chromatic-blur-1-a''
      = (Inr 0, snd q)"
    unfolding q_def by (metis prod.collapse)
  have fb: "fallback (page True)" "\<not> fallback (page False)"
    by (simp_all add: fallback_def page_def)
  have s: "boxShadow (style (elems (page ff) 2)) = ''none''"
    "backgroundColor (style (elems (page ff) 2)) = []" for ff
    by (simp_all add: page_def unstyled_def)
  have b: "text_of (borderColor (spread defaults no_options)) = ''rgba(156, 156, 156, 0.2)''"
    by (simp add: spread_def defaults_def no_options_def pick_def text_of_def)
  have x: "css (page ff) ''boxShadow'' (fallback_shadow ''rgba(156, 156, 156, 0.2)'')
      = Some stored_fallback"
    "css (page ff) ''boxShadow'' (inset_shadow ''rgba(156, 156, 156, 0.2)'') = Some stored_inset"
    "css (page ff) ''backgroundColor'' ''rgba(255, 255, 255, 0.85)''
      = Some ''rgba(255, 255, 255, 0.85)''" for ff
    by (simp_all add: page_def sample_css_def fallback_shadow_def inset_shadow_def)
  show ?thesis
    using destroy_keeps_shadow_and_background [OF resolve_navbar c, of stored_fallback]
      destroy_keeps_shadow_and_background [OF resolve_navbar c', of stored_inset]
      f f' fb
    by (simp add: r_def [symmetric] q_def [symmetric] s b x resolve_navbar assign_def
        shadow_after_def)
qed

end
